theory Spec2Isabelle
  imports Main "HOL-Library.AList"
begin

section \<open>Values, objects and errors\<close>

text \<open>
  The matchmaker of \<^verbatim>\<open>src/src/MatchMaker.ts\<close> works on untyped JavaScript values
  (\<^verbatim>\<open>ClientOptions = any\<close>, listings, IPC payloads). A value is a primitive or an
  object; an object is the list of its own properties in property order.
\<close>

datatype jsval =
    Undefined
  | Null
  | Bool bool
  | Num int
  | Str string
  | Obj "(string \<times> jsval) list"

type_synonym obj = "(string \<times> jsval) list"

text \<open>\<^verbatim>\<open>o[k]\<close>: a missing property reads as \<^verbatim>\<open>undefined\<close>.\<close>

definition obj_get :: "obj \<Rightarrow> string \<Rightarrow> jsval" where
  "obj_get ob k = (case map_of ob k of None \<Rightarrow> Undefined | Some v \<Rightarrow> v)"

text \<open>
  \<^verbatim>\<open>o[k] = v\<close>: an existing property keeps its place, a new one goes last
  (\<open>AList.update\<close>); \<^verbatim>\<open>delete o[k]\<close> is \<open>AList.delete\<close>.
\<close>

definition obj_set :: "obj \<Rightarrow> string \<Rightarrow> jsval \<Rightarrow> obj" where
  "obj_set ob k v = AList.update k v ob"

text \<open>\<^verbatim>\<open>{...a, ...b}\<close>: the properties of \<open>b\<close> are assigned over those of \<open>a\<close>, in order.\<close>

definition spread :: "obj \<Rightarrow> obj \<Rightarrow> obj" where
  "spread a b = fold (\<lambda>(k, v) acc. obj_set acc k v) b a"

text \<open>JavaScript truthiness (\<^verbatim>\<open>if (x)\<close>, \<^verbatim>\<open>!x\<close>, \<^verbatim>\<open>a || b\<close>).\<close>

fun truthy :: "jsval \<Rightarrow> bool" where
  "truthy Undefined = False"
| "truthy Null = False"
| "truthy (Bool b) = b"
| "truthy (Num n) = (n \<noteq> 0)"
| "truthy (Str s) = (s \<noteq> [])"
| "truthy (Obj ob) = True"

text \<open>\<^verbatim>\<open>a === b\<close>: primitives by value; two object values are never the same reference here.\<close>

fun strict_eq :: "jsval \<Rightarrow> jsval \<Rightarrow> bool" where
  "strict_eq (Obj a) b = False"
| "strict_eq a (Obj b) = False"
| "strict_eq a b = (a = b)"

text \<open>Decimal rendering of a number inside a template string.\<close>

definition digit_char :: "nat \<Rightarrow> char" where
  "digit_char d = ''0123456789'' ! d"

fun show_nat :: "nat \<Rightarrow> string" where
  "show_nat n = (if n < 10 then [digit_char n] else show_nat (n div 10) @ [digit_char (n mod 10)])"

declare show_nat.simps [simp del]

definition show_int :: "int \<Rightarrow> string" where
  "show_int i = (if i < 0 then CHR ''-'' # show_nat (nat (- i)) else show_nat (nat i))"

text \<open>\<^verbatim>\<open>`${v}`\<close>: string conversion of a value.\<close>

fun js_toString :: "jsval \<Rightarrow> string" where
  "js_toString Undefined = ''undefined''"
| "js_toString Null = ''null''"
| "js_toString (Bool b) = (if b then ''true'' else ''false'')"
| "js_toString (Num n) = show_int n"
| "js_toString (Str s) = s"
| "js_toString (Obj ob) = ''[object Object]''"

text \<open>The double quote character used inside the source's messages.\<close>

definition dq :: string where
  "dq = [CHR 0x22]"

text \<open>
  \<^verbatim>\<open>Protocol.ERR_MATCHMAKE_*\<close>, the error codes the matchmaker attaches. A
  \<^verbatim>\<open>MatchMakeError\<close> built without a code (\<^verbatim>\<open>new MatchMakeError(e.message)\<close>)
  carries \<open>None\<close> here: the class's default is not part of this file's sources.
\<close>

datatype protocol =
    ERR_MATCHMAKE_NO_HANDLER
  | ERR_MATCHMAKE_INVALID_CRITERIA
  | ERR_MATCHMAKE_INVALID_ROOM_ID
  | ERR_MATCHMAKE_UNHANDLED
  | ERR_MATCHMAKE_EXPIRED

text \<open>
  Everything a promise of the matchmaker can reject with: its two error classes, any
  other \<^verbatim>\<open>Error\<close> (a timeout of the IPC layer, a \<^verbatim>\<open>TypeError\<close>, a failing room
  method), or a bare value (\<^verbatim>\<open>Promise.reject(false)\<close>).
\<close>

datatype error =
    MatchMakeError string "protocol option"
  | SeatReservationError string
  | OtherError string
  | Rejected jsval

fun message :: "error \<Rightarrow> string" where
  "message (MatchMakeError m c) = m"
| "message (SeatReservationError m) = m"
| "message (OtherError m) = m"
| "message (Rejected v) = []"

fun isSeatReservationError :: "error \<Rightarrow> bool" where
  "isSeatReservationError (SeatReservationError m) = True"
| "isSeatReservationError e = False"

section \<open>Rooms, handlers, presence and the matchmaker's state\<close>

text \<open>
  A member of a room object, as \<^verbatim>\<open>room[method]\<close> finds it: a function (given the time
  of the call and its arguments, it returns or throws) or a plain property.
\<close>

datatype member =
    Method "nat \<Rightarrow> jsval list \<Rightarrow> error + jsval"
  | Property jsval

text \<open>
  The room class a handler registers (\<^verbatim>\<open>RoomConstructor\<close>): its optional
  \<^verbatim>\<open>onCreate\<close> (returning the error it throws, if any), its \<^verbatim>\<open>maxClients\<close>, its
  \<^verbatim>\<open>disconnect()\<close> and its other members.
\<close>

record klass =
  onCreate :: "(nat \<Rightarrow> obj \<Rightarrow> error option) option"
  klassMaxClients :: jsval
  disconnect :: "nat \<Rightarrow> error + jsval"
  members :: "string \<Rightarrow> member"

datatype RoomInternalState = CREATING | CREATED | DISPOSING

record room =
  roomId :: string
  roomName :: string
  maxClients :: jsval
  listing :: obj
  internalState :: RoomInternalState
  roomKlass :: klass

text \<open>
  Modelled from the spec: \<^verbatim>\<open>RegisteredHandler\<close> (its file is not among the sources). The
  spec gives a handler a room constructor, default options, \<^verbatim>\<open>filterBy\<close> (an ordered
  list of option keys) and sort options.
\<close>

record handler =
  handlerKlass :: klass
  options :: obj
  filterBy :: "string list"
  sortOptions :: "obj option"

text \<open>
  Modelled from the spec: \<^verbatim>\<open>getFilterOptions\<close> projects the client's options on the
  \<^verbatim>\<open>filterBy\<close> keys, into an object that starts empty. A key whose option is absent or
  falsy adds no field. The keys under which a listing holds what the matchmaker and the
  room write themselves are ignored: the spec keeps the filter fields of a listing apart
  from these (section 3), and has no search return a locked or a private listing
  (section 8), so no option of the client stands in for the name, the lock or the
  privacy of a room.
\<close>

definition INVALID_OPTION_KEYS :: "string list" where
  "INVALID_OPTION_KEYS =
     [''clients'', ''locked'', ''private'', ''metadata'', ''name'', ''processId'', ''roomId'']"

definition getFilterOptions :: "handler \<Rightarrow> obj \<Rightarrow> obj" where
  "getFilterOptions h opts =
     fold (\<lambda>field prev.
             if truthy (obj_get opts field) \<and> field \<notin> set INVALID_OPTION_KEYS
             then obj_set prev field (obj_get opts field)
             else prev)
          (filterBy h) []"

text \<open>
  Modelled from the spec: the \<^verbatim>\<open>Presence\<close> interface (section 4.1), as a process-local
  backend whose operations do not fail: counters (\<^verbatim>\<open>incr\<close>, \<^verbatim>\<open>decr\<close>, \<^verbatim>\<open>del\<close>),
  hashes (\<^verbatim>\<open>hset\<close>, \<^verbatim>\<open>hgetall\<close>, \<^verbatim>\<open>hincrby\<close>, \<^verbatim>\<open>hdel\<close>) and the channels that have
  a subscriber. A hash keeps its fields in insertion order, the order \<^verbatim>\<open>Object.keys\<close>
  gives; the decimal string a field holds is written as the integer it denotes.
\<close>

record presence =
  keys :: "string \<rightharpoonup> int"
  hashes :: "string \<Rightarrow> (string \<times> int) list"
  subscriptions :: "string set"

definition incr :: "presence \<Rightarrow> string \<Rightarrow> int \<times> presence" where
  "incr p k = (let v = (case keys p k of None \<Rightarrow> 0 | Some n \<Rightarrow> n) + 1
               in (v, p\<lparr>keys := (keys p)(k \<mapsto> v)\<rparr>))"

definition decr :: "presence \<Rightarrow> string \<Rightarrow> int \<times> presence" where
  "decr p k = (let v = (case keys p k of None \<Rightarrow> 0 | Some n \<Rightarrow> n) - 1
               in (v, p\<lparr>keys := (keys p)(k \<mapsto> v)\<rparr>))"

definition del :: "presence \<Rightarrow> string \<Rightarrow> presence" where
  "del p k = p\<lparr>keys := (keys p)(k := None)\<rparr>"

definition hset :: "presence \<Rightarrow> string \<Rightarrow> string \<Rightarrow> int \<Rightarrow> presence" where
  "hset p k f v = p\<lparr>hashes := (hashes p)(k := AList.update f v (hashes p k))\<rparr>"

definition hgetall :: "presence \<Rightarrow> string \<Rightarrow> (string \<times> int) list" where
  "hgetall p k = hashes p k"

definition hincrby :: "presence \<Rightarrow> string \<Rightarrow> string \<Rightarrow> int \<Rightarrow> presence" where
  "hincrby p k f d =
     hset p k f ((case map_of (hashes p k) f of None \<Rightarrow> 0 | Some n \<Rightarrow> n) + d)"

definition hdel :: "presence \<Rightarrow> string \<Rightarrow> string \<Rightarrow> presence" where
  "hdel p k f = p\<lparr>hashes := (hashes p)(k := AList.delete f (hashes p k))\<rparr>"

definition subscribe :: "presence \<Rightarrow> string \<Rightarrow> presence" where
  "subscribe p c = p\<lparr>subscriptions := insert c (subscriptions p)\<rparr>"

definition unsubscribe :: "presence \<Rightarrow> string \<Rightarrow> presence" where
  "unsubscribe p c = p\<lparr>subscriptions := subscriptions p - {c}\<rparr>"

text \<open>
  What the matchmaker asks of the world outside, in the order it asks: the trace a state
  carries. Its length is the time handed to the world's answers, so two calls of one
  run can be answered differently.
\<close>

datatype event =
    IPCRequest string "string option" "jsval list option" "nat option"
  | RoomCall string string "jsval list option"
  | OnCreate string obj
  | HandlerEmit string string string
  | RoomDisconnect string
  | SetTimeout int
  | DebugAndPrintError error

text \<open>
  The module's variables: \<^verbatim>\<open>handlers\<close> (the handlers assigned to it, by name),
  \<^verbatim>\<open>rooms\<close>, \<^verbatim>\<open>processId\<close>, \<^verbatim>\<open>presence\<close>, \<^verbatim>\<open>driver\<close> (the listings it has
  saved, oldest first) and \<^verbatim>\<open>isGracefullyShuttingDown\<close>; with them the number of ids
  drawn from \<^verbatim>\<open>generateId\<close> and the trace. The room table is an object keyed by room
  id: its entries are kept in insertion order, the order \<^verbatim>\<open>for (const roomId in rooms)\<close>
  visits.
\<close>

record mm_state =
  handlers :: "string \<rightharpoonup> handler"
  rooms :: "(string \<times> room) list"
  processId :: string
  presence :: presence
  driver :: "obj list"
  isGracefullyShuttingDown :: bool
  idsDrawn :: nat
  trace :: "event list"

text \<open>
  The collaborators that are not in \<^verbatim>\<open>MatchMaker.ts\<close>, taken as parameters:
  \<^verbatim>\<open>REMOTE_ROOM_SHORT_TIMEOUT\<close> and \<^verbatim>\<open>generateId\<close> of \<^verbatim>\<open>Utils\<close> (the n-th id it
  returns), \<^verbatim>\<open>requestFromIPC\<close> of \<^verbatim>\<open>IPC\<close> (what the request made at a given time
  on a channel resolves or rejects with; once at the result type \<^verbatim>\<open>any\<close> of a room call,
  once at \<^verbatim>\<open>RoomListingData\<close>), \<^verbatim>\<open>JSON.stringify\<close> on an argument list, the
  order a driver query's \<^verbatim>\<open>sort\<close> puts the listings in, \<^verbatim>\<open>Array.prototype.sort\<close>
  as the engine runs it on a comparator, and the defaults of \<^verbatim>\<open>retry\<close>'s second and
  third parameter (used by \<^verbatim>\<open>join\<close>).
\<close>

record env =
  REMOTE_ROOM_SHORT_TIMEOUT :: nat
  generateId :: "nat \<Rightarrow> string"
  requestFromIPC :: "nat \<Rightarrow> string \<Rightarrow> string option \<Rightarrow> jsval list option \<Rightarrow> error + jsval"
  requestListingFromIPC :: "nat \<Rightarrow> string \<Rightarrow> string option \<Rightarrow> jsval list option \<Rightarrow> error + obj"
  JSON_stringify :: "jsval list \<Rightarrow> string"
  querySort :: "obj \<Rightarrow> obj list \<Rightarrow> obj list"
  arraySort :: "(string \<Rightarrow> string \<Rightarrow> int) \<Rightarrow> string list \<Rightarrow> string list"
  retryMaxRetries :: nat
  retryErrorWhiteList :: "error \<Rightarrow> bool"

text \<open>A suspending function of the matchmaker: it resolves or rejects, and leaves a state.\<close>

type_synonym 'a result = "(error + 'a) \<times> mm_state"

definition emit_event :: "event \<Rightarrow> mm_state \<Rightarrow> mm_state" where
  "emit_event ev s = s\<lparr>trace := trace s @ [ev]\<rparr>"

definition now :: "mm_state \<Rightarrow> nat" where
  "now s = length (trace s)"

text \<open>
  \<^verbatim>\<open>handlers\<close> is a plain object (\<^verbatim>\<open>const handlers = {}\<close>), so \<^verbatim>\<open>handlers[name]\<close>
  finds more than the handlers assigned to it: under a name with no handler it finds
  what the object inherits under that name, a member of \<^verbatim>\<open>Object.prototype\<close>, which is
  truthy and is no handler. The name \<^verbatim>\<open>__proto__\<close> is never a property of the object's
  own: an assignment to it makes the handler the object's prototype (the state keeps
  that handler under this name), a read gives the prototype, and \<^verbatim>\<open>delete\<close> leaves it.
  With a handler as its prototype the object inherits the members of the handler as
  well; the model has those this module reads (\<^verbatim>\<open>sortOptions\<close> when it is set).
\<close>

definition objectPrototypeNames :: "string list" where
  "objectPrototypeNames =
     [''constructor'', ''__defineGetter__'', ''__defineSetter__'', ''hasOwnProperty'',
      ''__lookupGetter__'', ''__lookupSetter__'', ''isPrototypeOf'', ''propertyIsEnumerable'',
      ''toString'', ''valueOf'', ''__proto__'', ''toLocaleString'']"

definition registeredHandlerNames :: "handler \<Rightarrow> string list" where
  "registeredHandlerNames h =
     [''klass'', ''options'', ''getFilterOptions'', ''emit''] @
     (case sortOptions h of None \<Rightarrow> [] | Some so \<Rightarrow> [''sortOptions''])"

definition inheritedNames :: "mm_state \<Rightarrow> string list" where
  "inheritedNames s =
     objectPrototypeNames @
     (case handlers s ''__proto__'' of None \<Rightarrow> [] | Some p \<Rightarrow> registeredHandlerNames p)"

datatype lookup =
    Registered handler
  | Inherited
  | NotDefined

definition handlers_get :: "mm_state \<Rightarrow> string \<Rightarrow> lookup" where
  "handlers_get s name =
     (case handlers s name of
        Some h \<Rightarrow> Registered h
      | None \<Rightarrow> if name \<in> set (inheritedNames s) then Inherited else NotDefined)"

section \<open>The channel and key names\<close>

definition getRoomChannel :: "string \<Rightarrow> string" where
  "getRoomChannel rid = ''$'' @ rid"

definition getHandlerConcurrencyKey :: "string \<Rightarrow> string" where
  "getHandlerConcurrencyKey n = ''c:'' @ n"

definition getProcessChannel :: "string \<Rightarrow> string" where
  "getProcessChannel pid = ''p:'' @ pid"

definition getRoomCountKey :: string where
  "getRoomCountKey = ''roomcount''"

section \<open>Remote room call and seat reservation\<close>

text \<open>\<^verbatim>\<open>room[method]\<close> on a room object of the local table.\<close>

definition room_member :: "room \<Rightarrow> string \<Rightarrow> member" where
  "room_member r m =
     (if m = ''roomId'' then Property (Str (roomId r))
      else if m = ''roomName'' then Property (Str (roomName r))
      else if m = ''maxClients'' then Property (maxClients r)
      else if m = ''listing'' then Property (Obj (listing r))
      else members (roomKlass r) m)"

text \<open>
  \<^verbatim>\<open>(!args && typeof room[method] !== 'function') ? room[method]
     : await room[method].apply(room, args)\<close>; applying what is not a function throws a
  \<^verbatim>\<open>TypeError\<close>.
\<close>

definition local_room_call :: "room \<Rightarrow> string \<Rightarrow> jsval list option \<Rightarrow> nat \<Rightarrow> error + jsval" where
  "local_room_call r m args t =
     (case room_member r m of
        Method f \<Rightarrow> f t (case args of None \<Rightarrow> [] | Some as \<Rightarrow> as)
      | Property v \<Rightarrow>
          (case args of
             None \<Rightarrow> Inr v
           | Some as \<Rightarrow> Inl (OtherError ''room[method].apply is not a function'')))"

definition remote_request :: "env \<Rightarrow> string \<Rightarrow> jsval list option \<Rightarrow> string" where
  "remote_request E m args =
     m @ (case args of None \<Rightarrow> [] | Some as \<Rightarrow> '' with args '' @ JSON_stringify E as)"

definition remoteRoomCall ::
  "env \<Rightarrow> string \<Rightarrow> string \<Rightarrow> jsval list option \<Rightarrow> nat \<Rightarrow> mm_state \<Rightarrow> jsval result" where
  "remoteRoomCall E rid m args rejectionTimeout s =
     (case map_of (rooms s) rid of
        None \<Rightarrow>
          (let s' = emit_event (IPCRequest (getRoomChannel rid) (Some m) args None) s in
           case requestFromIPC E (now s) (getRoomChannel rid) (Some m) args of
             Inr v \<Rightarrow> (Inr v, s')
           | Inl e \<Rightarrow>
               (Inl (MatchMakeError
                  (''remote room ('' @ rid @ '') timed out, requesting '' @ dq
                     @ remote_request E m args @ dq @ ''. ('' @ show_nat rejectionTimeout
                     @ ''ms exceeded)'')
                  (Some ERR_MATCHMAKE_UNHANDLED)), s'))
      | Some r \<Rightarrow> (local_room_call r m args (now s), emit_event (RoomCall rid m args) s))"

text \<open>\<^verbatim>\<open>generateId()\<close>: the next id of the environment.\<close>

definition freshId :: "env \<Rightarrow> mm_state \<Rightarrow> string \<times> mm_state" where
  "freshId E s = (generateId E (idsDrawn s), s\<lparr>idsDrawn := Suc (idsDrawn s)\<rparr>)"

text \<open>A seat reservation \<^verbatim>\<open>{ room, sessionId }\<close>; the session id is whatever value was put there.\<close>

record SeatReservation =
  sessionId :: jsval
  room :: obj

definition reserveSeatFor :: "env \<Rightarrow> obj \<Rightarrow> obj \<Rightarrow> mm_state \<Rightarrow> SeatReservation result" where
  "reserveSeatFor E rm opts s =
     (let (sid, s1) = freshId E s;
          rid = js_toString (obj_get rm ''roomId'');
          (r, s2) = remoteRoomCall E rid ''_reserveSeat'' (Some [Str sid, Obj opts])
                      (REMOTE_ROOM_SHORT_TIMEOUT E) s1;
          (successfulSeatReservation, s3) =
             (case r of
                Inr v \<Rightarrow> (truthy v, s2)
              | Inl e \<Rightarrow> (False, s2))
      in if \<not> successfulSeatReservation
         then (Inl (SeatReservationError (rid @ '' is already full.'')), s3)
         else (Inr \<lparr>sessionId = Str sid, room = rm\<rparr>, s3))"

section \<open>The driver's listings\<close>

text \<open>
  Modelled from the spec: the \<^verbatim>\<open>MatchMakerDriver\<close> (section 4.3), as the in-memory
  backend. \<^verbatim>\<open>createInstance\<close> allocates a listing with the fields of section 3 at
  their defaults under the initial fields; \<^verbatim>\<open>save\<close> persists the listing under its
  room id, \<^verbatim>\<open>remove\<close> deletes it; \<^verbatim>\<open>findOne(conditions)\<close> gives the first listing,
  in the query's order, each of whose fields named by a condition is strictly equal to
  it, or nothing.
\<close>

definition createInstance :: "obj \<Rightarrow> obj" where
  "createInstance initialValues =
     spread [(''clients'', Num 0), (''locked'', Bool False), (''private'', Bool False),
             (''unlisted'', Bool False)] initialValues"

definition same_listing :: "obj \<Rightarrow> obj \<Rightarrow> bool" where
  "same_listing a b = (obj_get a ''roomId'' = obj_get b ''roomId'')"

fun listing_save :: "obj \<Rightarrow> obj list \<Rightarrow> obj list" where
  "listing_save l [] = [l]"
| "listing_save l (x # xs) = (if same_listing x l then l # xs else x # listing_save l xs)"

definition listing_remove :: "obj \<Rightarrow> obj list \<Rightarrow> obj list" where
  "listing_remove l xs = filter (\<lambda>x. \<not> same_listing x l) xs"

definition matches :: "obj \<Rightarrow> obj \<Rightarrow> bool" where
  "matches conditions l = list_all (\<lambda>(field, v). strict_eq (obj_get l field) v) conditions"

definition findOne :: "env \<Rightarrow> obj \<Rightarrow> obj option \<Rightarrow> mm_state \<Rightarrow> obj option" where
  "findOne E conditions sortBy s =
     List.find (matches conditions)
       (case sortBy of None \<Rightarrow> driver s | Some so \<Rightarrow> querySort E so (driver s))"

section \<open>The concurrency gate and the search for an available room\<close>

text \<open>
  \<^verbatim>\<open>awaitRoomAvailable\<close> in its two halves: what runs at once (the counter is
  incremented, the timer is set: the trace keeps the delay asked of \<^verbatim>\<open>setTimeout\<close>)
  and what the timer runs (the callback, then \<^verbatim>\<open>finally\<close> the decrement). Between
  the two, other joiners may enter the gate.
\<close>

definition gate_enter :: "env \<Rightarrow> string \<Rightarrow> mm_state \<Rightarrow> (int \<times> int) \<times> mm_state" where
  "gate_enter E roomToJoin s =
     (let concurrencyKey = getHandlerConcurrencyKey roomToJoin;
          (n, p) = incr (presence s) concurrencyKey;
          concurrency = n - 1;
          concurrencyTimeout = min (concurrency * 100) (int (REMOTE_ROOM_SHORT_TIMEOUT E))
      in ((concurrency, concurrencyTimeout),
          emit_event (SetTimeout concurrencyTimeout) (s\<lparr>presence := p\<rparr>)))"

definition gate_run :: "string \<Rightarrow> (mm_state \<Rightarrow> 'a result) \<Rightarrow> mm_state \<Rightarrow> 'a result" where
  "gate_run roomToJoin callback s =
     (let (r, s1) = callback s
      in (r, s1\<lparr>presence := snd (decr (presence s1) (getHandlerConcurrencyKey roomToJoin))\<rparr>))"

definition awaitRoomAvailable ::
  "env \<Rightarrow> string \<Rightarrow> (mm_state \<Rightarrow> 'a result) \<Rightarrow> mm_state \<Rightarrow> 'a result" where
  "awaitRoomAvailable E roomToJoin callback s =
     gate_run roomToJoin callback (snd (gate_enter E roomToJoin s))"

definition availableConditions :: "handler \<Rightarrow> string \<Rightarrow> obj \<Rightarrow> obj" where
  "availableConditions h rn opts =
     spread [(''locked'', Bool False), (''name'', Str rn), (''private'', Bool False)]
       (getFilterOptions h opts)"

text \<open>
  The callback of \<^verbatim>\<open>findOneRoomAvailable\<close>. What \<^verbatim>\<open>handlers[roomName]\<close> inherits passes
  the test \<^verbatim>\<open>if (!handler)\<close> and has no \<^verbatim>\<open>getFilterOptions\<close>: the call of it throws a
  \<^verbatim>\<open>TypeError\<close> before the driver is asked.
\<close>

definition findAvailable :: "env \<Rightarrow> string \<Rightarrow> obj \<Rightarrow> mm_state \<Rightarrow> (obj option) result" where
  "findAvailable E rn opts s =
     (case handlers_get s rn of
        NotDefined \<Rightarrow> (Inl (MatchMakeError (dq @ rn @ dq @ '' not defined'')
                              (Some ERR_MATCHMAKE_NO_HANDLER)), s)
      | Inherited \<Rightarrow> (Inl (OtherError ''handler.getFilterOptions is not a function''), s)
      | Registered h \<Rightarrow> (Inr (findOne E (availableConditions h rn opts) (sortOptions h) s), s))"

definition findOneRoomAvailable :: "env \<Rightarrow> string \<Rightarrow> obj \<Rightarrow> mm_state \<Rightarrow> (obj option) result" where
  "findOneRoomAvailable E rn opts s = awaitRoomAvailable E rn (findAvailable E rn opts) s"

section \<open>Room references and room events\<close>

definition createRoomReferences :: "room \<Rightarrow> bool \<Rightarrow> mm_state \<Rightarrow> mm_state" where
  "createRoomReferences r init s =
     (let s1 = s\<lparr>rooms := AList.update (roomId r) r (rooms s)\<rparr>
      in if init
         then s1\<lparr>presence := subscribe (presence s1) (getRoomChannel (roomId r))\<rparr>
         else s1)"

definition clearRoomReferences :: "room \<Rightarrow> mm_state \<Rightarrow> mm_state" where
  "clearRoomReferences r s = s\<lparr>presence := del (presence s) (roomId r)\<rparr>"

text \<open>
  \<^verbatim>\<open>handlers[name].emit(event, room)\<close>: with no handler under that name the property
  read of \<^verbatim>\<open>undefined\<close> throws, or the call of an \<^verbatim>\<open>emit\<close> that what is inherited
  under the name does not have; what the listener did before stays done.
\<close>

definition handler_emit :: "string \<Rightarrow> string \<Rightarrow> room \<Rightarrow> mm_state \<Rightarrow> unit result" where
  "handler_emit hn ev r s =
     (case handlers_get s hn of
        NotDefined \<Rightarrow> (Inl (OtherError ''Cannot read property emit of undefined''), s)
      | Inherited \<Rightarrow> (Inl (OtherError ''handlers[...].emit is not a function''), s)
      | Registered h \<Rightarrow> (Inr (), emit_event (HandlerEmit hn ev (roomId r)) s))"

definition lockRoom :: "string \<Rightarrow> room \<Rightarrow> mm_state \<Rightarrow> unit result" where
  "lockRoom rn r s = handler_emit (roomName r) ''lock'' r (clearRoomReferences r s)"

definition unlockRoom :: "string \<Rightarrow> room \<Rightarrow> mm_state \<Rightarrow> unit result" where
  "unlockRoom rn r s = handler_emit (roomName r) ''unlock'' r (createRoomReferences r False s)"

definition disposeRoom :: "string \<Rightarrow> room \<Rightarrow> mm_state \<Rightarrow> unit result" where
  "disposeRoom rn r s =
     (let s1 = (if \<not> isGracefullyShuttingDown s
                then s\<lparr>presence := hincrby (presence s) getRoomCountKey (processId s) (- 1)\<rparr>
                else s);
          s2 = s1\<lparr>driver := listing_remove (listing r) (driver s1)\<rparr>
      in case handler_emit rn ''dispose'' r s2 of
           (Inl e, s3) \<Rightarrow> (Inl e, s3)
         | (Inr u, s3) \<Rightarrow>
             (let s4 = s3\<lparr>presence := del (presence s3) (getHandlerConcurrencyKey rn)\<rparr>;
                  s5 = clearRoomReferences r s4;
                  s6 = s5\<lparr>presence := unsubscribe (presence s5) (getRoomChannel (roomId r))\<rparr>
              in (Inr (), s6\<lparr>rooms := AList.delete (roomId r) (rooms s6)\<rparr>)))"

section \<open>Creating rooms\<close>

text \<open>\<^verbatim>\<open>merge({}, a, b)\<close> of \<^verbatim>\<open>Utils\<close>: the properties of \<open>a\<close>, then of \<open>b\<close>, onto an empty object.\<close>

definition merge :: "obj \<Rightarrow> obj \<Rightarrow> obj \<Rightarrow> obj" where
  "merge target a b = spread (spread target a) b"

definition handleCreateRoom :: "env \<Rightarrow> string \<Rightarrow> obj \<Rightarrow> mm_state \<Rightarrow> obj result" where
  "handleCreateRoom E rn clientOptions s =
     (case handlers_get s rn of
        NotDefined \<Rightarrow> (Inl (MatchMakeError (dq @ rn @ dq @ '' not defined'')
                              (Some ERR_MATCHMAKE_NO_HANDLER)), s)
      | Inherited \<Rightarrow> (Inl (OtherError ''registeredHandler.klass is not a constructor''), s)
      | Registered registeredHandler \<Rightarrow>
          (let (rid, s1) = freshId E s;
               r0 = \<lparr>roomId = rid, roomName = rn,
                     maxClients = klassMaxClients (handlerKlass registeredHandler),
                     listing = createInstance
                       (spread [(''name'', Str rn), (''processId'', Str (processId s))]
                          (getFilterOptions registeredHandler clientOptions)),
                     internalState = CREATING,
                     roomKlass = handlerKlass registeredHandler\<rparr>;
               (thrown, s2) =
                 (case onCreate (roomKlass r0) of
                    None \<Rightarrow> (None, s1)
                  | Some f \<Rightarrow>
                      (let opts = merge [] clientOptions (options registeredHandler);
                           s1' = emit_event (OnCreate rid opts) s1
                       in case f (now s1) opts of
                            None \<Rightarrow>
                              (None, s1'\<lparr>presence :=
                                 hincrby (presence s1') getRoomCountKey (processId s1') 1\<rparr>)
                          | Some e \<Rightarrow> (Some e, emit_event (DebugAndPrintError e) s1')))
           in case thrown of
                Some e \<Rightarrow> (Inl (MatchMakeError (message e) None), s2)
              | None \<Rightarrow>
                  (let r1 = r0\<lparr>internalState := CREATED,
                             listing := obj_set (obj_set (listing r0) ''roomId'' (Str rid))
                                          ''maxClients'' (maxClients r0)\<rparr>;
                       s3 = createRoomReferences r1 True s2;
                       s4 = s3\<lparr>driver := listing_save (listing r1) (driver s3)\<rparr>;
                       s5 = emit_event (HandlerEmit rn ''create'' rid) s4
                   in (Inr (listing r1), s5))))"

text \<open>
  The comparator of \<^verbatim>\<open>createRoom\<close>: \<^verbatim>\<open>1\<close> when the first process has more rooms,
  \<^verbatim>\<open>-1\<close> otherwise, also when both have as many.
\<close>

definition roomCount :: "(string \<times> int) list \<Rightarrow> string \<Rightarrow> int" where
  "roomCount h p = (case map_of h p of None \<Rightarrow> 0 | Some n \<Rightarrow> n)"

definition compareRoomCount :: "(string \<times> int) list \<Rightarrow> string \<Rightarrow> string \<Rightarrow> int" where
  "compareRoomCount h p1 p2 = (if roomCount h p1 > roomCount h p2 then 1 else - 1)"

text \<open>\<^verbatim>\<open>keys.sort(...)[0] || processId\<close>: no key, or an empty first key, gives this process.\<close>

definition processIdWithFewerRooms :: "env \<Rightarrow> mm_state \<Rightarrow> string" where
  "processIdWithFewerRooms E s =
     (let roomsSpawnedByProcessId = hgetall (presence s) getRoomCountKey
      in case arraySort E (compareRoomCount roomsSpawnedByProcessId)
                (map fst roomsSpawnedByProcessId) of
           [] \<Rightarrow> processId s
         | p # ps \<Rightarrow> if p = [] then processId s else p)"

definition createRoom :: "env \<Rightarrow> string \<Rightarrow> obj \<Rightarrow> mm_state \<Rightarrow> obj result" where
  "createRoom E rn clientOptions s =
     (let target = processIdWithFewerRooms E s
      in if target = processId s then handleCreateRoom E rn clientOptions s
         else
           (let args = Some [Str rn, Obj clientOptions];
                s1 = emit_event (IPCRequest (getProcessChannel target) None args
                                   (Some (REMOTE_ROOM_SHORT_TIMEOUT E))) s
            in case requestListingFromIPC E (now s) (getProcessChannel target) None args of
                 Inr rm \<Rightarrow> (Inr rm, s1)
               | Inl e \<Rightarrow> handleCreateRoom E rn clientOptions (emit_event (DebugAndPrintError e) s1)))"

section \<open>The public operations\<close>

text \<open>
  Modelled from the spec: \<^verbatim>\<open>retry\<close> of \<^verbatim>\<open>Utils\<close> (not among the sources): a retry
  loop of up to the given number of attempts, which runs the callback again only after
  an error of a white-listed class. The first component lists the errors of the failed
  attempts, in order.
\<close>

fun retry_attempts ::
  "(mm_state \<Rightarrow> 'a result) \<Rightarrow> nat \<Rightarrow> (error \<Rightarrow> bool) \<Rightarrow> mm_state \<Rightarrow> error list \<times> 'a result" where
  "retry_attempts cb 0 whiteList s =
     (case cb s of
        (Inr v, s') \<Rightarrow> ([], (Inr v, s'))
      | (Inl e, s') \<Rightarrow> ([e], (Inl e, s')))"
| "retry_attempts cb (Suc n) whiteList s =
     (case cb s of
        (Inr v, s') \<Rightarrow> ([], (Inr v, s'))
      | (Inl e, s') \<Rightarrow>
          (if whiteList e \<and> 0 < n
           then (let (es, r) = retry_attempts cb n whiteList s' in (e # es, r))
           else ([e], (Inl e, s'))))"

definition retry :: "(mm_state \<Rightarrow> 'a result) \<Rightarrow> nat \<Rightarrow> (error \<Rightarrow> bool) \<Rightarrow> mm_state \<Rightarrow> 'a result" where
  "retry cb maxAttempts whiteList s = snd (retry_attempts cb maxAttempts whiteList s)"

text \<open>One attempt of \<^verbatim>\<open>joinOrCreate\<close>: the callback it hands to \<^verbatim>\<open>retry\<close>.\<close>

definition joinOrCreate_attempt :: "env \<Rightarrow> string \<Rightarrow> obj \<Rightarrow> mm_state \<Rightarrow> SeatReservation result" where
  "joinOrCreate_attempt E rn opts s =
     (case findOneRoomAvailable E rn opts s of
        (Inl e, s1) \<Rightarrow> (Inl e, s1)
      | (Inr (Some rm), s1) \<Rightarrow> reserveSeatFor E rm opts s1
      | (Inr None, s1) \<Rightarrow>
          (case createRoom E rn opts s1 of
             (Inl e, s2) \<Rightarrow> (Inl e, s2)
           | (Inr rm, s2) \<Rightarrow> reserveSeatFor E rm opts s2))"

definition joinOrCreate :: "env \<Rightarrow> string \<Rightarrow> obj \<Rightarrow> mm_state \<Rightarrow> SeatReservation result" where
  "joinOrCreate E rn opts s = retry (joinOrCreate_attempt E rn opts) 5 isSeatReservationError s"

definition join_attempt :: "env \<Rightarrow> string \<Rightarrow> obj \<Rightarrow> mm_state \<Rightarrow> SeatReservation result" where
  "join_attempt E rn opts s =
     (case findOneRoomAvailable E rn opts s of
        (Inl e, s1) \<Rightarrow> (Inl e, s1)
      | (Inr None, s1) \<Rightarrow>
          (Inl (MatchMakeError ''no rooms found with provided criteria''
                  (Some ERR_MATCHMAKE_INVALID_CRITERIA)), s1)
      | (Inr (Some rm), s1) \<Rightarrow> reserveSeatFor E rm opts s1)"

definition join :: "env \<Rightarrow> string \<Rightarrow> obj \<Rightarrow> mm_state \<Rightarrow> SeatReservation result" where
  "join E rn opts s =
     retry (join_attempt E rn opts) (retryMaxRetries E) (retryErrorWhiteList E) s"

definition create :: "env \<Rightarrow> string \<Rightarrow> obj \<Rightarrow> mm_state \<Rightarrow> SeatReservation result" where
  "create E rn opts s =
     (case createRoom E rn opts s of
        (Inl e, s1) \<Rightarrow> (Inl e, s1)
      | (Inr rm, s1) \<Rightarrow> reserveSeatFor E rm opts s1)"

definition joinById :: "env \<Rightarrow> string \<Rightarrow> obj \<Rightarrow> mm_state \<Rightarrow> SeatReservation result" where
  "joinById E rid opts s =
     (case findOne E [(''roomId'', Str rid)] None s of
        Some rm \<Rightarrow>
          (let rejoinSessionId = obj_get opts ''sessionId''
           in if truthy rejoinSessionId
              then (case remoteRoomCall E (js_toString (obj_get rm ''roomId'')) ''hasReservedSeat''
                           (Some [rejoinSessionId]) (REMOTE_ROOM_SHORT_TIMEOUT E) s of
                      (Inl e, s1) \<Rightarrow> (Inl e, s1)
                    | (Inr hasReservedSeat, s1) \<Rightarrow>
                        (if truthy hasReservedSeat
                         then (Inr \<lparr>sessionId = rejoinSessionId, room = rm\<rparr>, s1)
                         else (Inl (MatchMakeError ''session expired''
                                      (Some ERR_MATCHMAKE_EXPIRED)), s1)))
              else if \<not> truthy (obj_get rm ''locked'')
              then reserveSeatFor E rm opts s
              else (Inl (MatchMakeError (''room '' @ dq @ rid @ dq @ '' is locked'')
                           (Some ERR_MATCHMAKE_INVALID_ROOM_ID)), s))
      | None \<Rightarrow> (Inl (MatchMakeError (''room '' @ dq @ rid @ dq @ '' not found'')
                        (Some ERR_MATCHMAKE_INVALID_ROOM_ID)), s))"

text \<open>
  \<^verbatim>\<open>Promise.all\<close>: fulfilled with every value when every promise is fulfilled,
  rejected with a rejection otherwise (here the first in the list's order; which
  promise rejects first in time is not modelled).
\<close>

fun promise_all :: "(error + jsval) list \<Rightarrow> error + jsval list" where
  "promise_all [] = Inr []"
| "promise_all (Inl e # ps) = Inl e"
| "promise_all (Inr v # ps) = (case promise_all ps of Inl e \<Rightarrow> Inl e | Inr vs \<Rightarrow> Inr (v # vs))"

definition gracefullyShutdown :: "mm_state \<Rightarrow> (jsval list) result" where
  "gracefullyShutdown s =
     (if isGracefullyShuttingDown s then (Inl (Rejected (Bool False)), s)
      else
        (let s1 = s\<lparr>isGracefullyShuttingDown := True\<rparr>;
             s2 = s1\<lparr>presence := hdel (presence s1) getRoomCountKey (processId s1)\<rparr>;
             s3 = s2\<lparr>presence := unsubscribe (presence s2) (getProcessChannel (processId s2))\<rparr>;
             promises = map (\<lambda>(rid, r). disconnect (roomKlass r) (now s3)) (rooms s3);
             s4 = s3\<lparr>trace := trace s3 @ map (\<lambda>(rid, r). RoomDisconnect rid) (rooms s3)\<rparr>
         in (promise_all promises, s4)))"

text \<open>
  \<^verbatim>\<open>setup\<close> (a command word of Isabelle, hence the longer name), and the module as
  it is loaded: empty \<^verbatim>\<open>handlers\<close> and \<^verbatim>\<open>rooms\<close>.
\<close>

definition loaded :: mm_state where
  "loaded = \<lparr>handlers = Map.empty, rooms = [], processId = [],
             presence = \<lparr>keys = Map.empty, hashes = (\<lambda>k. []), subscriptions = {}\<rparr>,
             driver = [], isGracefullyShuttingDown = False, idsDrawn = 0, trace = []\<rparr>"

definition setup_matchmaker :: "presence \<Rightarrow> obj list \<Rightarrow> string \<Rightarrow> mm_state \<Rightarrow> mm_state" where
  "setup_matchmaker p d pid s =
     s\<lparr>presence := hset (subscribe p (getProcessChannel pid)) getRoomCountKey pid 0,
       driver := d, processId := pid, isGracefullyShuttingDown := False\<rparr>"

section \<open>The handler registry and the cleanup of stale rooms\<close>

text \<open>
  \<^verbatim>\<open>cleanupStaleRooms\<close> probes every cached listing of the name; for one that does not
  answer it removes the listing and clears the references of \<^verbatim>\<open>{ roomId, roomName }\<close>,
  a room object with nothing else in it.
\<close>

definition staleRoom :: "string \<Rightarrow> string \<Rightarrow> room" where
  "staleRoom rid rn =
     \<lparr>roomId = rid, roomName = rn, maxClients = Undefined, listing = [],
      internalState = CREATING,
      roomKlass = \<lparr>onCreate = None, klassMaxClients = Undefined,
                    disconnect = (\<lambda>t. Inr Undefined), members = (\<lambda>m. Property Undefined)\<rparr>\<rparr>"

definition probeRoom :: "env \<Rightarrow> string \<Rightarrow> obj \<Rightarrow> mm_state \<Rightarrow> mm_state" where
  "probeRoom E rn cached s =
     (let rid = js_toString (obj_get cached ''roomId'')
      in case remoteRoomCall E rid ''roomId'' None (REMOTE_ROOM_SHORT_TIMEOUT E) s of
           (Inr v, s1) \<Rightarrow> s1
         | (Inl e, s1) \<Rightarrow>
             clearRoomReferences (staleRoom rid rn)
               (s1\<lparr>driver := listing_remove cached (driver s1)\<rparr>))"

definition cleanupStaleRooms :: "env \<Rightarrow> string \<Rightarrow> mm_state \<Rightarrow> mm_state" where
  "cleanupStaleRooms E rn s =
     (let cachedRooms = filter (matches [(''name'', Str rn)]) (driver s);
          s1 = s\<lparr>presence := del (presence s) (getHandlerConcurrencyKey rn)\<rparr>
      in fold (probeRoom E rn) cachedRooms s1)"

definition defineRoomType :: "env \<Rightarrow> string \<Rightarrow> handler \<Rightarrow> mm_state \<Rightarrow> mm_state" where
  "defineRoomType E rn registeredHandler s =
     cleanupStaleRooms E rn (s\<lparr>handlers := (handlers s)(rn \<mapsto> registeredHandler)\<rparr>)"

definition removeRoomType :: "env \<Rightarrow> string \<Rightarrow> mm_state \<Rightarrow> mm_state" where
  "removeRoomType E rn s =
     cleanupStaleRooms E rn
       (if rn = ''__proto__'' then s else s\<lparr>handlers := (handlers s)(rn := None)\<rparr>)"

definition hasHandler :: "string \<Rightarrow> mm_state \<Rightarrow> bool" where
  "hasHandler rn s = (handlers_get s rn \<noteq> NotDefined)"

section \<open>Runs of a process\<close>

text \<open>
  The listeners \<^verbatim>\<open>handleCreateRoom\<close> binds on a room (\<^verbatim>\<open>lock\<close>, \<^verbatim>\<open>unlock\<close>,
  \<^verbatim>\<open>dispose\<close>), for an event emitted by a room of the local table. What a listener
  throws goes back to the emitting room; the state it reached stays.
\<close>

definition room_emits :: "string \<Rightarrow> string \<Rightarrow> mm_state \<Rightarrow> mm_state" where
  "room_emits rid ev s =
     (case map_of (rooms s) rid of
        None \<Rightarrow> s
      | Some r \<Rightarrow>
          (if ev = ''lock'' then snd (lockRoom (roomName r) r s)
           else if ev = ''unlock'' then snd (unlockRoom (roomName r) r s)
           else if ev = ''dispose'' then snd (disposeRoom (roomName r) r s)
           else s))"

text \<open>
  What can happen to a process after \<^verbatim>\<open>setup\<close>: a call of a public operation, a create
  request arriving on its process channel, an event of one of its rooms.
\<close>

datatype action =
    DefineRoomType string handler
  | RemoveRoomType string
  | JoinOrCreate string obj
  | Create string obj
  | Join string obj
  | JoinById string obj
  | CreateRequest string obj
  | RoomEmits string string
  | GracefullyShutdown

fun perform :: "env \<Rightarrow> action \<Rightarrow> mm_state \<Rightarrow> mm_state" where
  "perform E (DefineRoomType rn h) s = defineRoomType E rn h s"
| "perform E (RemoveRoomType rn) s = removeRoomType E rn s"
| "perform E (JoinOrCreate rn opts) s = snd (joinOrCreate E rn opts s)"
| "perform E (Create rn opts) s = snd (create E rn opts s)"
| "perform E (Join rn opts) s = snd (join E rn opts s)"
| "perform E (JoinById rid opts) s = snd (joinById E rid opts s)"
| "perform E (CreateRequest rn opts) s = snd (handleCreateRoom E rn opts s)"
| "perform E (RoomEmits rid ev) s = room_emits rid ev s"
| "perform E GracefullyShutdown s = snd (gracefullyShutdown s)"

definition run :: "env \<Rightarrow> action list \<Rightarrow> mm_state \<Rightarrow> mm_state" where
  "run E acts s = fold (perform E) acts s"

text \<open>
  The references of the local table are in order when every entry is filed under its
  room's id and the process is subscribed to that room's channel.
\<close>

definition refs_ok :: "mm_state \<Rightarrow> bool" where
  "refs_ok s =
     (\<forall>(k, r) \<in> set (rooms s). roomId r = k \<and> getRoomChannel k \<in> subscriptions (presence s))"

text \<open>
  Joiners interleaved at the gate of one room name, and what else the process does
  between the two halves of a joiner: a joiner enters (the first half of
  \<^verbatim>\<open>awaitRoomAvailable\<close>), the timer of one that entered fires (the second half), or
  meanwhile the process does something else (a room of its table emits an event, a room
  type is defined).
\<close>

datatype 'a gate_step =
    Enters
  | Fires "mm_state \<Rightarrow> 'a result"
  | Meanwhile "mm_state \<Rightarrow> mm_state"

fun gate_steps :: "env \<Rightarrow> string \<Rightarrow> 'a gate_step list \<Rightarrow> mm_state \<Rightarrow> mm_state" where
  "gate_steps E rn [] s = s"
| "gate_steps E rn (Enters # steps) s = gate_steps E rn steps (snd (gate_enter E rn s))"
| "gate_steps E rn (Fires cb # steps) s = gate_steps E rn steps (snd (gate_run rn cb s))"
| "gate_steps E rn (Meanwhile f # steps) s = gate_steps E rn steps (f s)"

fun entered :: "'a gate_step list \<Rightarrow> nat" where
  "entered [] = 0"
| "entered (Enters # steps) = Suc (entered steps)"
| "entered (Fires cb # steps) = entered steps"
| "entered (Meanwhile f # steps) = entered steps"

fun fired :: "'a gate_step list \<Rightarrow> nat" where
  "fired [] = 0"
| "fired (Enters # steps) = fired steps"
| "fired (Fires cb # steps) = Suc (fired steps)"
| "fired (Meanwhile f # steps) = fired steps"

text \<open>The value of a counter key, as \<^verbatim>\<open>incr\<close> and \<^verbatim>\<open>decr\<close> read it: an absent key counts 0.\<close>

definition counter :: "mm_state \<Rightarrow> string \<Rightarrow> int" where
  "counter s k = (case keys (presence s) k of None \<Rightarrow> 0 | Some n \<Rightarrow> n)"

text \<open>
  The steps leave the counter key \<open>k\<close> to the gate: along the run from \<open>s\<close>, no callback
  and nothing the process does meanwhile changes the value of \<open>k\<close>.
\<close>

fun undisturbed :: "string \<Rightarrow> env \<Rightarrow> string \<Rightarrow> 'a gate_step list \<Rightarrow> mm_state \<Rightarrow> bool" where
  "undisturbed k E rn [] s = True"
| "undisturbed k E rn (Enters # steps) s = undisturbed k E rn steps (snd (gate_enter E rn s))"
| "undisturbed k E rn (Fires cb # steps) s =
     (counter (snd (cb s)) k = counter s k \<and> undisturbed k E rn steps (snd (gate_run rn cb s)))"
| "undisturbed k E rn (Meanwhile f # steps) s =
     (counter (f s) k = counter s k \<and> undisturbed k E rn steps (f s))"

section \<open>The engine's sort\<close>

text \<open>
  \<^verbatim>\<open>Array.prototype.sort\<close> is the engine's. For concrete runs, the sort of V8 from
  version 7.0 on (Node.js 11 and later) as it works on an array of fewer than 64
  elements, which is a single run of its merge sort: the run the array starts with is
  found (\<^verbatim>\<open>CountAndMakeRun\<close>), and reversed when the comparator is negative between its
  second and first element; every later element is then put in by binary search
  (\<^verbatim>\<open>BinaryInsertionSort\<close>), left of the middle element when the comparator is negative.
\<close>

fun run_while :: "('a \<Rightarrow> 'a \<Rightarrow> bool) \<Rightarrow> 'a \<Rightarrow> 'a list \<Rightarrow> nat" where
  "run_while continues previous [] = 0"
| "run_while continues previous (x # xs) =
     (if continues x previous then Suc (run_while continues x xs) else 0)"

definition countRun :: "('a \<Rightarrow> 'a \<Rightarrow> int) \<Rightarrow> 'a list \<Rightarrow> nat \<times> bool" where
  "countRun cmp xs =
     (case xs of
        [] \<Rightarrow> (0, False)
      | [x] \<Rightarrow> (1, False)
      | x # y # ys \<Rightarrow>
          (if cmp y x < 0 then (2 + run_while (\<lambda>c p. cmp c p < 0) y ys, True)
           else (2 + run_while (\<lambda>c p. \<not> cmp c p < 0) y ys, False)))"

function binarySearch :: "('a \<Rightarrow> 'a \<Rightarrow> int) \<Rightarrow> 'a \<Rightarrow> 'a list \<Rightarrow> nat \<Rightarrow> nat \<Rightarrow> nat" where
  "binarySearch cmp pivot xs left right =
     (if left < right
      then (let mid = left + (right - left) div 2
            in if cmp pivot (xs ! mid) < 0 then binarySearch cmp pivot xs left mid
               else binarySearch cmp pivot xs (mid + 1) right)
      else left)"
  by pat_completeness auto
termination
  by (relation "measure (\<lambda>(cmp, pivot, xs, left, right). right - left)") auto

declare binarySearch.simps [simp del]

definition binaryInsert :: "('a \<Rightarrow> 'a \<Rightarrow> int) \<Rightarrow> 'a \<Rightarrow> 'a list \<Rightarrow> 'a list" where
  "binaryInsert cmp pivot ys =
     (let at = binarySearch cmp pivot ys 0 (length ys)
      in take at ys @ pivot # drop at ys)"

definition timSortShort :: "('a \<Rightarrow> 'a \<Rightarrow> int) \<Rightarrow> 'a list \<Rightarrow> 'a list" where
  "timSortShort cmp xs =
     (let (runLength, descending) = countRun cmp xs;
          firstRun = (if descending then rev (take runLength xs) else take runLength xs)
      in fold (binaryInsert cmp) (drop runLength xs) firstRun)"

section \<open>Concrete processes\<close>

text \<open>
  An environment in which no peer answers, and a process \<open>p1\<close> with two room types:
  \<open>chat\<close>, whose class has no \<^verbatim>\<open>onCreate\<close> and accepts every seat, and \<open>full\<close>,
  whose class has an \<^verbatim>\<open>onCreate\<close>, refuses every seat and fails to disconnect, and
  whose handler filters by \<^verbatim>\<open>mode\<close> and \<^verbatim>\<open>private\<close>. They give the concrete runs
  below something to run on.
\<close>

definition E0 :: env where
  "E0 = \<lparr>REMOTE_ROOM_SHORT_TIMEOUT = 2000,
          generateId = (\<lambda>n. ''id'' @ show_nat n),
          requestFromIPC = (\<lambda>t c m a. Inl (OtherError ''connection refused'')),
          requestListingFromIPC = (\<lambda>t c m a. Inl (OtherError ''timed out'')),
          JSON_stringify = (\<lambda>as. ''[...]''),
          querySort = (\<lambda>so xs. xs),
          arraySort = timSortShort,
          retryMaxRetries = 3,
          retryErrorWhiteList = (\<lambda>e. False)\<rparr>"

definition K0 :: klass where
  "K0 = \<lparr>onCreate = None, klassMaxClients = Num 4,
          disconnect = (\<lambda>t. Inr Undefined),
          members = (\<lambda>m. if m = ''_reserveSeat'' \<or> m = ''hasReservedSeat''
                          then Method (\<lambda>t as. Inr (Bool True)) else Property Undefined)\<rparr>"

definition K1 :: klass where
  "K1 = \<lparr>onCreate = Some (\<lambda>t opts. None), klassMaxClients = Num 0,
          disconnect = (\<lambda>t. Inl (OtherError ''socket closed'')),
          members = (\<lambda>m. if m = ''_reserveSeat'' \<or> m = ''hasReservedSeat''
                          then Method (\<lambda>t as. Inr (Bool False)) else Property Undefined)\<rparr>"

definition H0 :: handler where
  "H0 = \<lparr>handlerKlass = K0, options = [], filterBy = [], sortOptions = None\<rparr>"

definition H1 :: handler where
  "H1 = \<lparr>handlerKlass = K1, options = [], filterBy = [''mode'', ''private''], sortOptions = None\<rparr>"

definition P0 :: presence where
  "P0 = \<lparr>keys = Map.empty, hashes = (\<lambda>k. []), subscriptions = {}\<rparr>"

definition S0 :: mm_state where
  "S0 = (setup_matchmaker P0 [] ''p1'' loaded)\<lparr>handlers := [''chat'' \<mapsto> H0, ''full'' \<mapsto> H1]\<rparr>"

text \<open>The process after it created a \<open>chat\<close> room, with the room and its listing.\<close>

definition S1 :: mm_state where
  "S1 = snd (handleCreateRoom E0 ''chat'' [] S0)"

definition L1 :: obj where
  "L1 = [(''clients'', Num 0), (''locked'', Bool False), (''private'', Bool False),
         (''unlisted'', Bool False), (''name'', Str ''chat''), (''processId'', Str ''p1''),
         (''roomId'', Str ''id0''), (''maxClients'', Num 4)]"

definition R1 :: room where
  "R1 = \<lparr>roomId = ''id0'', roomName = ''chat'', maxClients = Num 4, listing = L1,
          internalState = CREATED, roomKlass = K0\<rparr>"

text \<open>
  The process after its \<open>chat\<close> room locked itself: the room has saved its listing
  with \<^verbatim>\<open>locked = true\<close> and emitted \<^verbatim>\<open>lock\<close>.
\<close>

definition L1_locked :: obj where
  "L1_locked = obj_set L1 ''locked'' (Bool True)"

definition R1_locked :: room where
  "R1_locked = R1\<lparr>listing := L1_locked\<rparr>"

definition S1_locked :: mm_state where
  "S1_locked =
     room_emits ''id0'' ''lock'' (S1\<lparr>rooms := [(''id0'', R1_locked)], driver := [L1_locked]\<rparr>)"

text \<open>The same process after it also created a \<open>full\<close> room.\<close>

definition S2 :: mm_state where
  "S2 = snd (handleCreateRoom E0 ''full'' [] S1)"

definition L2 :: obj where
  "L2 = [(''clients'', Num 0), (''locked'', Bool False), (''private'', Bool False),
         (''unlisted'', Bool False), (''name'', Str ''full''), (''processId'', Str ''p1''),
         (''roomId'', Str ''id1''), (''maxClients'', Num 0)]"

definition R2 :: room where
  "R2 = \<lparr>roomId = ''id1'', roomName = ''full'', maxClients = Num 0, listing = L2,
          internalState = CREATED, roomKlass = K1\<rparr>"

text \<open>
  The listing of a private \<open>full\<close> room of a peer \<open>p2\<close>, and a process that starts on a
  driver in which the peer has saved it.
\<close>

definition LP :: obj where
  "LP = [(''clients'', Num 1), (''locked'', Bool False), (''private'', Bool True),
         (''unlisted'', Bool False), (''name'', Str ''full''), (''processId'', Str ''p2''),
         (''roomId'', Str ''r9''), (''maxClients'', Num 2)]"

definition SP :: mm_state where
  "SP = (setup_matchmaker P0 [LP] ''p1'' loaded)\<lparr>handlers := [''chat'' \<mapsto> H0, ''full'' \<mapsto> H1]\<rparr>"

text \<open>
  The process \<open>p1\<close> next to a peer \<open>p2\<close>: with 3 rooms against 1, and with no room on
  either side.
\<close>

definition S3 :: mm_state where
  "S3 = S0\<lparr>presence := hset (hset (presence S0) getRoomCountKey ''p1'' 3) getRoomCountKey ''p2'' 1\<rparr>"

definition S4 :: mm_state where
  "S4 = S0\<lparr>presence := hset (presence S0) getRoomCountKey ''p2'' 0\<rparr>"

text \<open>A callback for the gate that throws.\<close>

definition throwing :: "mm_state \<Rightarrow> (obj option) result" where
  "throwing s = (Inl (OtherError ''driver down''), s)"

section \<open>Looking up a handler\<close>

lemma handlers_get_registered: "handlers s rn = Some h \<Longrightarrow> handlers_get s rn = Registered h"
  by (simp add: handlers_get_def)

lemma handlers_get_inherited:
  "handlers s rn = None \<Longrightarrow> rn \<in> set objectPrototypeNames \<Longrightarrow> handlers_get s rn = Inherited"
  by (simp add: handlers_get_def inheritedNames_def)

lemma handlers_get_cases:
  "handlers_get s rn = Registered h \<longleftrightarrow> handlers s rn = Some h"
  by (auto simp: handlers_get_def split: option.splits)

lemma handlers_get_same:
  "handlers s' = handlers s \<Longrightarrow> handlers_get s' rn = handlers_get s rn"
  by (simp only: handlers_get_def inheritedNames_def)

lemma handlers_get_update [simp]:
  "handlers_get (s\<lparr>rooms := rs\<rparr>) rn = handlers_get s rn"
  "handlers_get (s\<lparr>presence := p\<rparr>) rn = handlers_get s rn"
  "handlers_get (s\<lparr>driver := d\<rparr>) rn = handlers_get s rn"
  "handlers_get (s\<lparr>processId := pid\<rparr>) rn = handlers_get s rn"
  "handlers_get (s\<lparr>isGracefullyShuttingDown := b\<rparr>) rn = handlers_get s rn"
  "handlers_get (s\<lparr>idsDrawn := n\<rparr>) rn = handlers_get s rn"
  "handlers_get (s\<lparr>trace := tr\<rparr>) rn = handlers_get s rn"
  by (rule handlers_get_same, simp)+

section \<open>The concrete processes, evaluated\<close>

lemmas concrete_defs =
  S0_def E0_def K0_def H0_def P0_def loaded_def setup_matchmaker_def
  handleCreateRoom_def handlers_get_def inheritedNames_def objectPrototypeNames_def
  INVALID_OPTION_KEYS_def obj_get_def
  freshId_def createInstance_def spread_def obj_set_def getFilterOptions_def
  createRoomReferences_def subscribe_def hset_def emit_event_def now_def getRoomChannel_def
  getProcessChannel_def getRoomCountKey_def show_nat.simps digit_char_def Let_def

lemma E0_fields:
  "REMOTE_ROOM_SHORT_TIMEOUT E0 = 2000"
  "requestListingFromIPC E0 t c m a = Inl (OtherError ''timed out'')"
  "requestFromIPC E0 t c m a = Inl (OtherError ''connection refused'')"
  by (simp_all add: E0_def)

lemma remoteRoomCall_state:
  "snd (remoteRoomCall E rid m args t s) =
     emit_event (case map_of (rooms s) rid of
                   None \<Rightarrow> IPCRequest (getRoomChannel rid) (Some m) args None
                 | Some r \<Rightarrow> RoomCall rid m args) s"
  by (simp add: remoteRoomCall_def Let_def split: option.splits sum.splits)

lemma S1_eq:
  "S1 = S0\<lparr>rooms := [(''id0'', R1)], driver := [L1], idsDrawn := 1,
            trace := [HandlerEmit ''chat'' ''create'' ''id0''],
            presence := (presence S0)\<lparr>subscriptions := {''$id0'', ''p:p1''}\<rparr>\<rparr>"
  by (simp add: S1_def concrete_defs L1_def R1_def)

lemma S2_rooms: "rooms S2 = [(''id0'', R1), (''id1'', R2)]"
  by (simp add: S2_def S1_eq concrete_defs merge_def hincrby_def K1_def H1_def L2_def R2_def)

lemma S2_not_shutting_down: "\<not> isGracefullyShuttingDown S2"
  by (simp add: S2_def S1_eq concrete_defs merge_def hincrby_def K1_def H1_def L2_def R2_def)

lemma S2_roomcount: "hgetall (presence S2) getRoomCountKey = [(''p1'', 1)]"
  by (simp add: S2_def S1_eq concrete_defs merge_def hincrby_def K1_def H1_def L2_def R2_def hgetall_def)

lemma S2_ids: "idsDrawn S2 = 2"
  by (simp add: S2_def S1_eq concrete_defs merge_def hincrby_def K1_def H1_def)

lemma S1_rooms: "rooms S1 = [(''id0'', R1)]"
  by (simp add: S1_def concrete_defs L1_def R1_def)

lemma S1_driver: "driver S1 = [L1]"
  by (simp add: S1_def concrete_defs L1_def R1_def)

lemma S1_ids: "idsDrawn S1 = 1"
  by (simp add: S1_def concrete_defs L1_def R1_def)

lemma S1_trace: "trace S1 = [HandlerEmit ''chat'' ''create'' ''id0'']"
  by (simp add: S1_def concrete_defs L1_def R1_def)

section \<open>Remote room call: every failure of the request reads as a timeout\<close>

text \<open>
  C10. In \<^verbatim>\<open>remoteRoomCall\<close>, when the room id is not in the local room table and the
  request over IPC fails, whatever the failure \<open>e\<close> is, the call fails with a
  \<^verbatim>\<open>MatchMakeError\<close> of code \<^verbatim>\<open>ERR_MATCHMAKE_UNHANDLED\<close> whose message says that the
  remote room timed out and carries the method name, the serialized arguments when
  there are any, and the timeout in milliseconds. The failure \<open>e\<close> itself appears
  nowhere in the result, so a caller cannot tell a timeout from any other failure.
\<close>

theorem remoteRoomCall_failure_reads_as_timeout:
  assumes "map_of (rooms s) rid = None"
    and "requestFromIPC E (now s) (getRoomChannel rid) (Some m) args = Inl e"
  shows "remoteRoomCall E rid m args t s =
           (Inl (MatchMakeError
              (''remote room ('' @ rid @ '') timed out, requesting '' @ dq @ m
                 @ (case args of None \<Rightarrow> [] | Some as \<Rightarrow> '' with args '' @ JSON_stringify E as)
                 @ dq @ ''. ('' @ show_nat t @ ''ms exceeded)'')
              (Some ERR_MATCHMAKE_UNHANDLED)),
            emit_event (IPCRequest (getRoomChannel rid) (Some m) args None) s)"
  using assms by (simp add: remoteRoomCall_def remote_request_def Let_def)

theorem remoteRoomCall_failure_reads_as_timeout_witness:
  "remoteRoomCall E0 ''r1'' ''_reserveSeat'' (Some [Str ''s1'']) 2000 loaded =
     (Inl (MatchMakeError
        (''remote room (r1) timed out, requesting '' @ dq @ ''_reserveSeat with args [...]''
           @ dq @ ''. (2000ms exceeded)'')
        (Some ERR_MATCHMAKE_UNHANDLED)),
      emit_event (IPCRequest ''$r1'' (Some ''_reserveSeat'') (Some [Str ''s1'']) None) loaded)"
  using remoteRoomCall_failure_reads_as_timeout
          [of loaded "''r1''" E0 "''_reserveSeat''" "Some [Str ''s1'']"
              "OtherError ''connection refused''" 2000]
  by (simp add: loaded_def E0_def getRoomChannel_def show_nat.simps digit_char_def)

section \<open>Reserving a seat\<close>

text \<open>
  C6. \<^verbatim>\<open>reserveSeatFor(listing, options)\<close> draws a fresh session id from
  \<^verbatim>\<open>generateId\<close>, calls \<^verbatim>\<open>_reserveSeat(sessionId, options)\<close> on the listing's room through
  \<^verbatim>\<open>remoteRoomCall\<close> (the one call the state gains: on the room object when it is local,
  over IPC otherwise), and takes an error of that call for a false answer. It throws
  \<^verbatim>\<open>SeatReservationError\<close> with the message \<^verbatim>\<open><roomId> is already full.\<close> exactly when
  the answer is not truthy, and returns \<^verbatim>\<open>{room: listing, sessionId}\<close> otherwise.
\<close>

theorem reserveSeatFor_outcome:
  "reserveSeatFor E rm opts s =
     (let sid = generateId E (idsDrawn s);
          rid = js_toString (obj_get rm ''roomId'');
          call = remoteRoomCall E rid ''_reserveSeat'' (Some [Str sid, Obj opts])
                   (REMOTE_ROOM_SHORT_TIMEOUT E) (s\<lparr>idsDrawn := Suc (idsDrawn s)\<rparr>)
      in (if (case fst call of Inr v \<Rightarrow> truthy v | Inl e \<Rightarrow> False)
          then Inr \<lparr>sessionId = Str sid, room = rm\<rparr>
          else Inl (SeatReservationError (rid @ '' is already full.'')),
          emit_event
            (case map_of (rooms s) rid of
               None \<Rightarrow> IPCRequest (getRoomChannel rid) (Some ''_reserveSeat'')
                         (Some [Str sid, Obj opts]) None
             | Some r \<Rightarrow> RoomCall rid ''_reserveSeat'' (Some [Str sid, Obj opts]))
            (s\<lparr>idsDrawn := Suc (idsDrawn s)\<rparr>)))"
  unfolding reserveSeatFor_def freshId_def Let_def
  using remoteRoomCall_state [of E "js_toString (obj_get rm ''roomId'')" "''_reserveSeat''"
          "Some [Str (generateId E (idsDrawn s)), Obj opts]" "REMOTE_ROOM_SHORT_TIMEOUT E"
          "s\<lparr>idsDrawn := Suc (idsDrawn s)\<rparr>"]
  by (cases "remoteRoomCall E (js_toString (obj_get rm ''roomId'')) ''_reserveSeat''
               (Some [Str (generateId E (idsDrawn s)), Obj opts]) (REMOTE_ROOM_SHORT_TIMEOUT E)
               (s\<lparr>idsDrawn := Suc (idsDrawn s)\<rparr>)")
     (auto split: sum.splits option.splits)

theorem reserveSeatFor_outcome_witness:
  "fst (reserveSeatFor E0 L1 [] S1) = Inr \<lparr>sessionId = Str ''id1'', room = L1\<rparr> \<and>
   fst (reserveSeatFor E0 L2 [] S2) = Inl (SeatReservationError ''id1 is already full.'') \<and>
   fst (reserveSeatFor E0 LP [] S1) = Inl (SeatReservationError ''r9 is already full.'')"
  using reserveSeatFor_outcome [of E0 L1 "[]" S1] reserveSeatFor_outcome [of E0 L2 "[]" S2]
        reserveSeatFor_outcome [of E0 LP "[]" S1]
  by (simp add: Let_def S1_rooms S1_ids S2_rooms S2_ids remoteRoomCall_def local_room_call_def
        room_member_def R1_def R2_def K0_def K1_def L1_def L2_def LP_def obj_get_def E0_def
        show_nat.simps digit_char_def)

section \<open>Joining a room by its id\<close>

text \<open>
  C4. \<^verbatim>\<open>joinById(roomId, options)\<close>: when \<^verbatim>\<open>driver.findOne({roomId})\<close> finds no room
  it fails with \<^verbatim>\<open>ERR_MATCHMAKE_INVALID_ROOM_ID\<close>. When it finds one and
  \<^verbatim>\<open>options.sessionId\<close> is present (truthy, as the source tests it), it calls
  \<^verbatim>\<open>hasReservedSeat(sessionId)\<close> on the room and nothing else (the state only gains the
  record of that one call: no id is drawn, no \<^verbatim>\<open>_reserveSeat\<close> is called); a truthy
  answer returns \<^verbatim>\<open>{room, sessionId}\<close> with the same session id, a falsy one fails with
  \<^verbatim>\<open>ERR_MATCHMAKE_EXPIRED\<close>, and a failing call fails the join with the call's error.
  Otherwise a locked room fails with \<^verbatim>\<open>ERR_MATCHMAKE_INVALID_ROOM_ID\<close>, and only
  otherwise is \<^verbatim>\<open>reserveSeatFor\<close> called.
\<close>

theorem joinById_outcome:
  "(findOne E [(''roomId'', Str rid)] None s = None \<longrightarrow>
      joinById E rid opts s =
        (Inl (MatchMakeError (''room '' @ dq @ rid @ dq @ '' not found'')
                (Some ERR_MATCHMAKE_INVALID_ROOM_ID)), s)) \<and>
   (\<forall>rm. findOne E [(''roomId'', Str rid)] None s = Some rm \<longrightarrow>
      (let sid = obj_get opts ''sessionId'';
           owner = js_toString (obj_get rm ''roomId'');
           call = remoteRoomCall E owner ''hasReservedSeat'' (Some [sid])
                    (REMOTE_ROOM_SHORT_TIMEOUT E) s
       in joinById E rid opts s =
            (if truthy sid
             then (case fst call of
                     Inl e \<Rightarrow> Inl e
                   | Inr v \<Rightarrow>
                       if truthy v then Inr \<lparr>sessionId = sid, room = rm\<rparr>
                       else Inl (MatchMakeError ''session expired'' (Some ERR_MATCHMAKE_EXPIRED)),
                   emit_event
                     (case map_of (rooms s) owner of
                        None \<Rightarrow> IPCRequest (getRoomChannel owner) (Some ''hasReservedSeat'')
                                  (Some [sid]) None
                      | Some r \<Rightarrow> RoomCall owner ''hasReservedSeat'' (Some [sid])) s)
             else if truthy (obj_get rm ''locked'')
             then (Inl (MatchMakeError (''room '' @ dq @ rid @ dq @ '' is locked'')
                          (Some ERR_MATCHMAKE_INVALID_ROOM_ID)), s)
             else reserveSeatFor E rm opts s)))"
proof (intro conjI allI impI)
  assume "findOne E [(''roomId'', Str rid)] None s = None"
  then show "joinById E rid opts s =
      (Inl (MatchMakeError (''room '' @ dq @ rid @ dq @ '' not found'')
              (Some ERR_MATCHMAKE_INVALID_ROOM_ID)), s)"
    by (simp add: joinById_def)
next
  fix rm
  assume found: "findOne E [(''roomId'', Str rid)] None s = Some rm"
  let ?owner = "js_toString (obj_get rm ''roomId'')"
  let ?call = "remoteRoomCall E ?owner ''hasReservedSeat'' (Some [obj_get opts ''sessionId''])
                 (REMOTE_ROOM_SHORT_TIMEOUT E) s"
  have st: "snd ?call =
      emit_event (case map_of (rooms s) ?owner of
                    None \<Rightarrow> IPCRequest (getRoomChannel ?owner) (Some ''hasReservedSeat'')
                              (Some [obj_get opts ''sessionId'']) None
                  | Some r \<Rightarrow> RoomCall ?owner ''hasReservedSeat''
                               (Some [obj_get opts ''sessionId''])) s"
    by (rule remoteRoomCall_state)
  show "let sid = obj_get opts ''sessionId'';
            owner = js_toString (obj_get rm ''roomId'');
            call = remoteRoomCall E owner ''hasReservedSeat'' (Some [sid])
                     (REMOTE_ROOM_SHORT_TIMEOUT E) s
        in joinById E rid opts s =
            (if truthy sid
             then (case fst call of
                     Inl e \<Rightarrow> Inl e
                   | Inr v \<Rightarrow>
                       if truthy v then Inr \<lparr>sessionId = sid, room = rm\<rparr>
                       else Inl (MatchMakeError ''session expired'' (Some ERR_MATCHMAKE_EXPIRED)),
                   emit_event
                     (case map_of (rooms s) owner of
                        None \<Rightarrow> IPCRequest (getRoomChannel owner) (Some ''hasReservedSeat'')
                                  (Some [sid]) None
                      | Some r \<Rightarrow> RoomCall owner ''hasReservedSeat'' (Some [sid])) s)
             else if truthy (obj_get rm ''locked'')
             then (Inl (MatchMakeError (''room '' @ dq @ rid @ dq @ '' is locked'')
                          (Some ERR_MATCHMAKE_INVALID_ROOM_ID)), s)
             else reserveSeatFor E rm opts s)"
    unfolding Let_def
    using found st
    by (cases ?call) (auto simp: joinById_def Let_def split: sum.splits)
qed

lemma findOne_S1: "findOne E0 [(''roomId'', Str ''id0'')] None S1 = Some L1"
  by (simp add: findOne_def S1_driver matches_def L1_def obj_get_def)

lemma findOne_S1_none: "findOne E0 [(''roomId'', Str ''zz'')] None S1 = None"
  by (simp add: findOne_def S1_driver matches_def L1_def obj_get_def)

lemma S1_locked_eq:
  "S1_locked = snd (lockRoom ''chat'' R1_locked
                      (S1\<lparr>rooms := [(''id0'', R1_locked)], driver := [L1_locked]\<rparr>))"
  by (simp add: S1_locked_def room_emits_def R1_locked_def R1_def)

lemma S1_locked_rooms: "rooms S1_locked = [(''id0'', R1_locked)]"
  and S1_locked_driver: "driver S1_locked = [L1_locked]"
  and S1_locked_ids: "idsDrawn S1_locked = 1"
  and S1_locked_subscriptions: "subscriptions (presence S1_locked) = {''$id0'', ''p:p1''}"
  by (simp_all add: S1_locked_eq lockRoom_def handler_emit_def handlers_get_def
        clearRoomReferences_def del_def emit_event_def S1_eq S0_def setup_matchmaker_def
        R1_locked_def R1_def)

lemma S2_driver: "driver S2 = [L1, L2]"
  by (simp add: S2_def S1_eq concrete_defs merge_def hincrby_def K1_def H1_def L1_def L2_def
        same_listing_def obj_get_def)

theorem joinById_outcome_witness:
  "fst (joinById E0 ''zz'' [] S1) =
     Inl (MatchMakeError (''room '' @ dq @ ''zz'' @ dq @ '' not found'')
            (Some ERR_MATCHMAKE_INVALID_ROOM_ID)) \<and>
   joinById E0 ''id0'' [(''sessionId'', Str ''abc'')] S1 =
     (Inr \<lparr>sessionId = Str ''abc'', room = L1\<rparr>,
      emit_event (RoomCall ''id0'' ''hasReservedSeat'' (Some [Str ''abc''])) S1) \<and>
   fst (joinById E0 ''id1'' [(''sessionId'', Str ''abc'')] S2) =
     Inl (MatchMakeError ''session expired'' (Some ERR_MATCHMAKE_EXPIRED)) \<and>
   joinById E0 ''id0'' [] S1_locked =
     (Inl (MatchMakeError (''room '' @ dq @ ''id0'' @ dq @ '' is locked'')
             (Some ERR_MATCHMAKE_INVALID_ROOM_ID)), S1_locked) \<and>
   joinById E0 ''id0'' [] S1 = reserveSeatFor E0 L1 [] S1"
proof -
  have a: "fst (joinById E0 ''zz'' [] S1) =
     Inl (MatchMakeError (''room '' @ dq @ ''zz'' @ dq @ '' not found'')
            (Some ERR_MATCHMAKE_INVALID_ROOM_ID))"
    using joinById_outcome [of E0 "''zz''" S1 "[]"] by (simp add: findOne_S1_none)
  have b: "joinById E0 ''id0'' [(''sessionId'', Str ''abc'')] S1 =
     (Inr \<lparr>sessionId = Str ''abc'', room = L1\<rparr>,
      emit_event (RoomCall ''id0'' ''hasReservedSeat'' (Some [Str ''abc''])) S1)"
    using joinById_outcome [of E0 "''id0''" S1 "[(''sessionId'', Str ''abc'')]"]
    by (simp add: findOne_S1 Let_def obj_get_def L1_def S1_rooms remoteRoomCall_def
          local_room_call_def room_member_def R1_def K0_def now_def)
  have f2: "findOne E0 [(''roomId'', Str ''id1'')] None S2 = Some L2"
    by (simp add: findOne_def S2_driver matches_def L1_def L2_def obj_get_def)
  have c: "fst (joinById E0 ''id1'' [(''sessionId'', Str ''abc'')] S2) =
     Inl (MatchMakeError ''session expired'' (Some ERR_MATCHMAKE_EXPIRED))"
    using joinById_outcome [of E0 "''id1''" S2 "[(''sessionId'', Str ''abc'')]"]
    by (simp add: f2 Let_def obj_get_def L2_def S2_rooms remoteRoomCall_def
          local_room_call_def room_member_def R2_def K1_def now_def)
  have f3: "findOne E0 [(''roomId'', Str ''id0'')] None S1_locked = Some L1_locked"
    by (simp add: findOne_def S1_locked_driver matches_def L1_locked_def L1_def obj_get_def
          obj_set_def)
  have d: "joinById E0 ''id0'' [] S1_locked =
     (Inl (MatchMakeError (''room '' @ dq @ ''id0'' @ dq @ '' is locked'')
             (Some ERR_MATCHMAKE_INVALID_ROOM_ID)), S1_locked)"
    using joinById_outcome [of E0 "''id0''" S1_locked "[]"]
    by (simp add: f3 Let_def obj_get_def obj_set_def L1_locked_def L1_def)
  have e: "joinById E0 ''id0'' [] S1 = reserveSeatFor E0 L1 [] S1"
    using joinById_outcome [of E0 "''id0''" S1 "[]"]
    by (simp add: findOne_S1 Let_def) (simp add: obj_get_def L1_def)
  show ?thesis
    using a b c d e by simp
qed

section \<open>The room count of this process\<close>

lemma roomCount_update: "roomCount (AList.update k v h) k = v"
  by (simp add: roomCount_def update_conv')

lemma handleCreateRoom_without_onCreate:
  assumes "handlers s rn = Some h" and "onCreate (handlerKlass h) = None"
  shows "(\<exists>l. fst (handleCreateRoom E rn co s) = Inr l) \<and>
         hashes (presence (snd (handleCreateRoom E rn co s))) = hashes (presence s)"
  using assms
  by (simp add: handleCreateRoom_def handlers_get_def freshId_def Let_def
        createRoomReferences_def subscribe_def emit_event_def)

lemma handleCreateRoom_onCreate_ok:
  assumes "handlers s rn = Some h" and "onCreate (handlerKlass h) = Some f"
    and "f (now s) (merge [] co (options h)) = None"
  shows "(\<exists>l. fst (handleCreateRoom E rn co s) = Inr l) \<and>
         roomCount (hgetall (presence (snd (handleCreateRoom E rn co s))) getRoomCountKey)
           (processId s) =
         roomCount (hgetall (presence s) getRoomCountKey) (processId s) + 1"
  using assms
  by (simp add: handleCreateRoom_def handlers_get_def freshId_def Let_def
        createRoomReferences_def subscribe_def emit_event_def now_def hincrby_def hset_def
        hgetall_def roomCount_def update_conv')

lemma handleCreateRoom_onCreate_throws:
  assumes "handlers s rn = Some h" and "onCreate (handlerKlass h) = Some f"
    and "f (now s) (merge [] co (options h)) = Some e"
  shows "fst (handleCreateRoom E rn co s) = Inl (MatchMakeError (message e) None) \<and>
         hashes (presence (snd (handleCreateRoom E rn co s))) = hashes (presence s)"
  using assms
  by (simp add: handleCreateRoom_def handlers_get_def freshId_def Let_def emit_event_def
        now_def)

lemma disposeRoom_roomcount:
  "roomCount (hgetall (presence (snd (disposeRoom rn r s))) getRoomCountKey) (processId s) =
     (if isGracefullyShuttingDown s
      then roomCount (hgetall (presence s) getRoomCountKey) (processId s)
      else roomCount (hgetall (presence s) getRoomCountKey) (processId s) - 1)"
  by (simp add: disposeRoom_def handler_emit_def Let_def clearRoomReferences_def del_def
        unsubscribe_def emit_event_def hincrby_def hset_def hgetall_def roomCount_def
        update_conv' split: lookup.splits)

text \<open>
  C9. In \<^verbatim>\<open>handleCreateRoom\<close> the entry of this process in the room-count hash is
  incremented by 1 only inside the branch where the room class defines \<^verbatim>\<open>onCreate\<close>
  and that call completes without throwing. For a room class without \<^verbatim>\<open>onCreate\<close> a
  successful creation leaves every hash as it was; a throwing \<^verbatim>\<open>onCreate\<close> fails the
  creation with a \<^verbatim>\<open>MatchMakeError\<close> of its message and leaves the hashes as they were.
  \<^verbatim>\<open>disposeRoom\<close> all the same decrements the entry by 1 when the process is not
  shutting down.
\<close>

theorem roomcount_incremented_only_after_onCreate:
  "(handlers s rn = Some h \<longrightarrow>
      (onCreate (handlerKlass h) = None \<longrightarrow>
         (\<exists>l. fst (handleCreateRoom E rn co s) = Inr l) \<and>
         hashes (presence (snd (handleCreateRoom E rn co s))) = hashes (presence s)) \<and>
      (\<forall>f. onCreate (handlerKlass h) = Some f \<longrightarrow>
         (f (now s) (merge [] co (options h)) = None \<longrightarrow>
            (\<exists>l. fst (handleCreateRoom E rn co s) = Inr l) \<and>
            roomCount (hgetall (presence (snd (handleCreateRoom E rn co s))) getRoomCountKey)
              (processId s) =
            roomCount (hgetall (presence s) getRoomCountKey) (processId s) + 1) \<and>
         (\<forall>e. f (now s) (merge [] co (options h)) = Some e \<longrightarrow>
            fst (handleCreateRoom E rn co s) = Inl (MatchMakeError (message e) None) \<and>
            hashes (presence (snd (handleCreateRoom E rn co s))) = hashes (presence s)))) \<and>
   roomCount (hgetall (presence (snd (disposeRoom rn r s))) getRoomCountKey) (processId s) =
     (if isGracefullyShuttingDown s
      then roomCount (hgetall (presence s) getRoomCountKey) (processId s)
      else roomCount (hgetall (presence s) getRoomCountKey) (processId s) - 1)"
  using handleCreateRoom_without_onCreate [of s rn h E co]
        handleCreateRoom_onCreate_ok [of s rn h _ co E]
        handleCreateRoom_onCreate_throws [of s rn h _ co _ E]
        disposeRoom_roomcount [of rn r s]
  by blast

lemma S0_handler: "handlers S0 ''chat'' = Some H0"
  by (simp add: S0_def)

lemma S0_roomcount: "roomCount (hgetall (presence S0) getRoomCountKey) (processId S0) = 0"
  by (simp add: S0_def P0_def setup_matchmaker_def hset_def hgetall_def roomCount_def
        subscribe_def getRoomCountKey_def)

lemma S1_processId: "processId S1 = ''p1''"
  by (simp add: S1_def concrete_defs)

lemma S1_not_shutting_down: "\<not> isGracefullyShuttingDown S1"
  by (simp add: S1_def concrete_defs)

lemma S0_processId: "processId S0 = ''p1''"
  by (simp add: S0_def setup_matchmaker_def)

theorem roomcount_incremented_only_after_onCreate_witness:
  "hashes (presence S1) = hashes (presence S0) \<and>
   roomCount (hgetall (presence S1) getRoomCountKey) ''p1'' = 0 \<and>
   roomCount (hgetall (presence S2) getRoomCountKey) ''p1'' = 1 \<and>
   roomCount (hgetall (presence (snd (disposeRoom ''chat'' R1 S1))) getRoomCountKey) ''p1'' = - 1"
proof -
  have a: "hashes (presence S1) = hashes (presence S0)"
    using roomcount_incremented_only_after_onCreate
            [where s = S0 and rn = "''chat''" and h = H0 and E = E0 and co = "[]"]
          S0_handler
    by (simp add: S1_def H0_def K0_def)
  have b: "roomCount (hgetall (presence S1) getRoomCountKey) ''p1'' = 0"
    using a S0_roomcount by (simp add: hgetall_def S0_processId)
  have h1: "handlers S1 ''full'' = Some H1"
    by (simp add: S1_eq S0_def)
  have "roomCount (hgetall (presence (snd (handleCreateRoom E0 ''full'' [] S1))) getRoomCountKey)
          (processId S1) =
        roomCount (hgetall (presence S1) getRoomCountKey) (processId S1) + 1"
    using roomcount_incremented_only_after_onCreate
            [where s = S1 and rn = "''full''" and h = H1 and E = E0 and co = "[]"]
          h1
    by (simp add: H1_def K1_def)
  then have c: "roomCount (hgetall (presence S2) getRoomCountKey) ''p1'' = 1"
    using b by (simp add: S2_def S1_processId)
  have d: "roomCount (hgetall (presence (snd (disposeRoom ''chat'' R1 S1))) getRoomCountKey)
             ''p1'' = - 1"
    using roomcount_incremented_only_after_onCreate
            [where s = S1 and rn = "''chat''" and r = R1]
          b S1_processId S1_not_shutting_down
    by simp
  show ?thesis using a b c d by simp
qed

section \<open>Graceful shutdown\<close>

lemma promise_all_fulfilled:
  "(\<forall>p \<in> set ps. \<exists>v. p = Inr v) \<Longrightarrow> promise_all ps = Inr (map projr ps)"
  by (induction ps rule: promise_all.induct) auto

lemma promise_all_rejected:
  "Inl e0 \<in> set ps \<Longrightarrow> \<exists>e. promise_all ps = Inl e \<and> Inl e \<in> set ps"
  by (induction ps rule: promise_all.induct) (auto split: sum.splits)

lemma gracefullyShutdown_again:
  "isGracefullyShuttingDown s \<Longrightarrow> gracefullyShutdown s = (Inl (Rejected (Bool False)), s)"
  by (simp add: gracefullyShutdown_def)

lemma gracefullyShutdown_first:
  assumes "\<not> isGracefullyShuttingDown s"
  shows "isGracefullyShuttingDown (snd (gracefullyShutdown s))"
    and "map_of (hgetall (presence (snd (gracefullyShutdown s))) getRoomCountKey) (processId s) = None"
    and "getProcessChannel (processId s) \<notin> subscriptions (presence (snd (gracefullyShutdown s)))"
    and "trace (snd (gracefullyShutdown s)) = trace s @ map (\<lambda>(rid, r). RoomDisconnect rid) (rooms s)"
    and "fst (gracefullyShutdown s) =
           promise_all (map (\<lambda>(rid, r). disconnect (roomKlass r) (now s)) (rooms s))"
  using assms
  by (simp_all add: gracefullyShutdown_def Let_def hdel_def unsubscribe_def hgetall_def now_def
        delete_conv')

text \<open>
  C7, as the code has it. A call of \<^verbatim>\<open>gracefullyShutdown\<close> on a process that is already
  shutting down rejects with the value \<^verbatim>\<open>false\<close> and changes nothing. The first call
  sets the flag, deletes this process's entry of the room-count hash, unsubscribes from
  \<^verbatim>\<open>p:<processId>\<close>, invokes \<^verbatim>\<open>disconnect()\<close> on every room of the local table and
  returns \<^verbatim>\<open>Promise.all\<close> of the promises: it is fulfilled with all their values when
  every one is fulfilled, and rejected with the rejection of one of them as soon as there
  is one; no failure is caught or logged on the way (the trace gains the calls of
  \<^verbatim>\<open>disconnect\<close> only). A second call after the first rejects with \<^verbatim>\<open>false\<close>.
\<close>

theorem gracefullyShutdown_outcome:
  "(isGracefullyShuttingDown s \<longrightarrow>
      gracefullyShutdown s = (Inl (Rejected (Bool False)), s)) \<and>
   (\<not> isGracefullyShuttingDown s \<longrightarrow>
      isGracefullyShuttingDown (snd (gracefullyShutdown s)) \<and>
      map_of (hgetall (presence (snd (gracefullyShutdown s))) getRoomCountKey) (processId s) = None \<and>
      getProcessChannel (processId s) \<notin> subscriptions (presence (snd (gracefullyShutdown s))) \<and>
      trace (snd (gracefullyShutdown s)) =
        trace s @ map (\<lambda>(rid, r). RoomDisconnect rid) (rooms s) \<and>
      fst (gracefullyShutdown s) =
        promise_all (map (\<lambda>(rid, r). disconnect (roomKlass r) (now s)) (rooms s)) \<and>
      ((\<forall>(rid, r) \<in> set (rooms s). \<exists>v. disconnect (roomKlass r) (now s) = Inr v) \<longrightarrow>
         fst (gracefullyShutdown s) =
           Inr (map (\<lambda>(rid, r). projr (disconnect (roomKlass r) (now s))) (rooms s))) \<and>
      ((\<exists>(rid, r) \<in> set (rooms s). \<exists>e. disconnect (roomKlass r) (now s) = Inl e) \<longrightarrow>
         (\<exists>e. fst (gracefullyShutdown s) = Inl e \<and>
              (\<exists>(rid, r) \<in> set (rooms s). disconnect (roomKlass r) (now s) = Inl e))) \<and>
      fst (gracefullyShutdown (snd (gracefullyShutdown s))) = Inl (Rejected (Bool False)))"
proof (intro conjI impI)
  assume "isGracefullyShuttingDown s"
  then show "gracefullyShutdown s = (Inl (Rejected (Bool False)), s)"
    by (rule gracefullyShutdown_again)
next
  assume n: "\<not> isGracefullyShuttingDown s"
  let ?ps = "map (\<lambda>(rid, r). disconnect (roomKlass r) (now s)) (rooms s)"
  note first = gracefullyShutdown_first [OF n]
  show "isGracefullyShuttingDown (snd (gracefullyShutdown s))" by (rule first)
  show "map_of (hgetall (presence (snd (gracefullyShutdown s))) getRoomCountKey) (processId s) = None"
    by (rule first)
  show "getProcessChannel (processId s) \<notin> subscriptions (presence (snd (gracefullyShutdown s)))"
    by (rule first)
  show "trace (snd (gracefullyShutdown s)) = trace s @ map (\<lambda>(rid, r). RoomDisconnect rid) (rooms s)"
    by (rule first)
  show res: "fst (gracefullyShutdown s) = promise_all ?ps" by (rule first)
  show "fst (gracefullyShutdown (snd (gracefullyShutdown s))) = Inl (Rejected (Bool False))"
    using first(1) by (simp add: gracefullyShutdown_again)
  {
    assume "\<forall>(rid, r) \<in> set (rooms s). \<exists>v. disconnect (roomKlass r) (now s) = Inr v"
    then have "\<forall>p \<in> set ?ps. \<exists>v. p = Inr v" by auto
    then have "promise_all ?ps = Inr (map projr ?ps)" by (rule promise_all_fulfilled)
    then show "fst (gracefullyShutdown s) =
        Inr (map (\<lambda>(rid, r). projr (disconnect (roomKlass r) (now s))) (rooms s))"
      using res by (simp add: comp_def case_prod_unfold)
  }
  {
    assume "\<exists>(rid, r) \<in> set (rooms s). \<exists>e. disconnect (roomKlass r) (now s) = Inl e"
    then obtain e0 where "Inl e0 \<in> set ?ps" by force
    then obtain e where "promise_all ?ps = Inl e" and "Inl e \<in> set ?ps"
      using promise_all_rejected by blast
    then show "\<exists>e. fst (gracefullyShutdown s) = Inl e \<and>
              (\<exists>(rid, r) \<in> set (rooms s). disconnect (roomKlass r) (now s) = Inl e)"
      using res by force
  }
qed

text \<open>
  The claim C7 as it is written (all the promises are left to settle, failures are logged
  and not rethrown) fails on the process with two rooms, the second of which fails to
  disconnect: the shutdown rejects with that room's error, and no error is logged.
\<close>

theorem gracefullyShutdown_rethrows:
  "fst (gracefullyShutdown S2) = Inl (OtherError ''socket closed'') \<and>
   trace (snd (gracefullyShutdown S2)) =
     trace S2 @ [RoomDisconnect ''id0'', RoomDisconnect ''id1'']"
  by (simp add: gracefullyShutdown_def S2_not_shutting_down S2_rooms Let_def R1_def R2_def K0_def K1_def)

theorem gracefullyShutdown_outcome_witness:
  "fst (gracefullyShutdown S1) = Inr [Undefined] \<and>
   isGracefullyShuttingDown (snd (gracefullyShutdown S1)) \<and>
   ''p:p1'' \<notin> subscriptions (presence (snd (gracefullyShutdown S1))) \<and>
   trace (snd (gracefullyShutdown S1)) = trace S1 @ [RoomDisconnect ''id0''] \<and>
   fst (gracefullyShutdown (snd (gracefullyShutdown S1))) = Inl (Rejected (Bool False))"
  using gracefullyShutdown_outcome [of S1] S1_not_shutting_down S1_processId
  by (simp add: S1_rooms R1_def K0_def getProcessChannel_def)



section \<open>Searching for an available room\<close>

lemma map_of_spread: "map_of (spread a b) = map_of a ++ map_of (rev b)"
proof (induction b arbitrary: a)
  case Nil
  then show ?case by (simp add: spread_def)
next
  case (Cons kv b)
  obtain k v where kv: "kv = (k, v)" by (cases kv)
  have "spread a (kv # b) = spread (obj_set a k v) b"
    by (simp add: spread_def kv)
  then have "map_of (spread a (kv # b)) = map_of (obj_set a k v) ++ map_of (rev b)"
    using Cons.IH by simp
  also have "\<dots> = map_of a ++ map_of (rev (kv # b))"
    by (simp add: obj_set_def update_conv' kv map_add_upd_left map_add_def fun_eq_iff
          split: option.splits)
  finally show ?case .
qed

lemma obj_get_spread_other:
  "k \<notin> fst ` set b \<Longrightarrow> obj_get (spread a b) k = obj_get a k"
proof -
  assume "k \<notin> fst ` set b"
  then have "map_of (rev b) k = None"
    by (simp add: map_of_eq_None_iff)
  then show ?thesis
    by (simp add: obj_get_def map_of_spread map_add_def)
qed

lemma matches_field:
  "matches conditions l \<Longrightarrow> (k, v) \<in> set conditions \<Longrightarrow> strict_eq (obj_get l k) v"
  by (auto simp: matches_def list_all_iff)

lemma strict_eq_same: "strict_eq x v \<Longrightarrow> x = v"
  by (cases x; cases v) auto

lemma set_obj_set_keys: "fst ` set (obj_set ob k v) = insert k (fst ` set ob)"
proof -
  have "set (map fst (AList.update k v ob)) = insert k (set (map fst ob))"
    by (auto simp: update_keys)
  then show ?thesis by (simp add: obj_set_def)
qed

lemma fold_filter_keys:
  "fst ` set (fold (\<lambda>field prev.
                     if truthy (obj_get opts field) \<and> field \<notin> set INVALID_OPTION_KEYS
                     then obj_set prev field (obj_get opts field)
                     else prev) fs acc)
     \<subseteq> fst ` set acc \<union> (set fs - set INVALID_OPTION_KEYS)"
proof (induction fs arbitrary: acc)
  case Nil
  then show ?case by simp
next
  case (Cons field fs)
  show ?case
    using Cons.IH [of "if truthy (obj_get opts field) \<and> field \<notin> set INVALID_OPTION_KEYS
                       then obj_set acc field (obj_get opts field) else acc"]
    by (auto simp: set_obj_set_keys split: if_splits)
qed

lemma getFilterOptions_keys:
  "fst ` set (getFilterOptions h opts) \<subseteq> set (filterBy h) - set INVALID_OPTION_KEYS"
  using fold_filter_keys [of opts "filterBy h" "[]"] by (simp add: getFilterOptions_def)

lemma getFilterOptions_not_reserved:
  "''locked'' \<notin> fst ` set (getFilterOptions h opts)"
  "''private'' \<notin> fst ` set (getFilterOptions h opts)"
  "''name'' \<notin> fst ` set (getFilterOptions h opts)"
  using getFilterOptions_keys [of h opts] by (auto simp: INVALID_OPTION_KEYS_def)

lemma findOne_found: "findOne E conditions so s = Some l \<Longrightarrow> matches conditions l"
  by (auto simp: findOne_def find_Some_iff)

lemma findOne_same:
  "driver s' = driver s \<Longrightarrow> findOne E conditions so s' = findOne E conditions so s"
  by (simp only: findOne_def)

lemma findOneRoomAvailable_fst:
  "fst (findOneRoomAvailable E rn opts s) =
     (case handlers_get s rn of
        NotDefined \<Rightarrow>
          Inl (MatchMakeError (dq @ rn @ dq @ '' not defined'') (Some ERR_MATCHMAKE_NO_HANDLER))
      | Inherited \<Rightarrow> Inl (OtherError ''handler.getFilterOptions is not a function'')
      | Registered h \<Rightarrow> Inr (findOne E (availableConditions h rn opts) (sortOptions h) s))"
proof -
  let ?s1 = "snd (gate_enter E rn s)"
  have same: "handlers ?s1 = handlers s" and d: "driver ?s1 = driver s"
    by (simp_all add: gate_enter_def Let_def emit_event_def split: prod.splits)
  have "fst (findOneRoomAvailable E rn opts s) = fst (findAvailable E rn opts ?s1)"
    by (simp add: findOneRoomAvailable_def awaitRoomAvailable_def gate_run_def split: prod.splits)
  also have "\<dots> =
     (case handlers_get s rn of
        NotDefined \<Rightarrow>
          Inl (MatchMakeError (dq @ rn @ dq @ '' not defined'') (Some ERR_MATCHMAKE_NO_HANDLER))
      | Inherited \<Rightarrow> Inl (OtherError ''handler.getFilterOptions is not a function'')
      | Registered h \<Rightarrow> Inr (findOne E (availableConditions h rn opts) (sortOptions h) s))"
    by (simp add: findAvailable_def handlers_get_same [OF same] findOne_same [OF d]
          split: lookup.splits)
  finally show ?thesis .
qed

lemma base_condition_matched:
  assumes "matches (availableConditions h rn opts) l"
    and "(k, v) \<in> set [(''locked'', Bool False), (''name'', Str rn), (''private'', Bool False)]"
  shows "obj_get l k = v"
proof -
  let ?base = "[(''locked'', Bool False), (''name'', Str rn), (''private'', Bool False)]"
  have "k = ''locked'' \<or> k = ''name'' \<or> k = ''private''"
    using assms(2) by auto
  then have "k \<notin> fst ` set (getFilterOptions h opts)"
    using getFilterOptions_not_reserved [of h opts] by (elim disjE) simp_all
  then have "obj_get (availableConditions h rn opts) k = obj_get ?base k"
    by (simp add: availableConditions_def obj_get_spread_other)
  also have "\<dots> = v"
    using assms(2) by (auto simp: obj_get_def)
  finally have "obj_get (availableConditions h rn opts) k = v" .
  moreover have "v \<noteq> Undefined"
    using assms(2) by auto
  ultimately have "map_of (availableConditions h rn opts) k = Some v"
    by (auto simp: obj_get_def split: option.splits)
  then have "(k, v) \<in> set (availableConditions h rn opts)"
    by (rule map_of_SomeD)
  then have "strict_eq (obj_get l k) v"
    using assms(1) matches_field by blast
  then show ?thesis by (rule strict_eq_same)
qed

text \<open>
  C8, on the code. \<^verbatim>\<open>findOneRoomAvailable(roomName, options)\<close> takes its handler by
  \<^verbatim>\<open>handlers[roomName]\<close>, from a plain object. For a name with a registered handler it
  returns what the driver finds for the conditions \<^verbatim>\<open>{locked: false, name: roomName,
  private: false}\<close> with the handler's filter options spread over them, and any listing
  it returns has \<^verbatim>\<open>locked = false\<close>, \<^verbatim>\<open>private = false\<close> and the name asked for. For a
  name with no handler that the object does not inherit either it fails with
  \<^verbatim>\<open>ERR_MATCHMAKE_NO_HANDLER\<close>.
  But for a name of \<^verbatim>\<open>Object.prototype\<close> (\<^verbatim>\<open>constructor\<close>, \<^verbatim>\<open>toString\<close>,
  \<^verbatim>\<open>__proto__\<close>, ...) with no handler registered, what the object inherits passes the
  test for a handler, and the call fails with a \<^verbatim>\<open>TypeError\<close> where C8 has it fail with
  \<^verbatim>\<open>ERR_MATCHMAKE_NO_HANDLER\<close>.
\<close>

theorem findOneRoomAvailable_outcome:
  "(handlers s rn = None \<and> rn \<in> set objectPrototypeNames \<longrightarrow>
      fst (findOneRoomAvailable E rn opts s) =
        Inl (OtherError ''handler.getFilterOptions is not a function'')) \<and>
   (handlers s rn = None \<and> rn \<notin> set (inheritedNames s) \<longrightarrow>
      fst (findOneRoomAvailable E rn opts s) =
        Inl (MatchMakeError (dq @ rn @ dq @ '' not defined'') (Some ERR_MATCHMAKE_NO_HANDLER))) \<and>
   (\<forall>h. handlers s rn = Some h \<longrightarrow>
      fst (findOneRoomAvailable E rn opts s) =
        Inr (findOne E
               (spread [(''locked'', Bool False), (''name'', Str rn), (''private'', Bool False)]
                  (getFilterOptions h opts))
               (sortOptions h) s) \<and>
      (\<forall>l. fst (findOneRoomAvailable E rn opts s) = Inr (Some l) \<longrightarrow>
         obj_get l ''locked'' = Bool False \<and> obj_get l ''private'' = Bool False \<and>
         obj_get l ''name'' = Str rn))"
proof (intro conjI allI impI)
  assume "handlers s rn = None \<and> rn \<in> set objectPrototypeNames"
  then have "handlers_get s rn = Inherited"
    by (simp add: handlers_get_inherited)
  then show "fst (findOneRoomAvailable E rn opts s) =
        Inl (OtherError ''handler.getFilterOptions is not a function'')"
    by (simp add: findOneRoomAvailable_fst)
next
  assume "handlers s rn = None \<and> rn \<notin> set (inheritedNames s)"
  then have "handlers_get s rn = NotDefined"
    by (simp add: handlers_get_def)
  then show "fst (findOneRoomAvailable E rn opts s) =
        Inl (MatchMakeError (dq @ rn @ dq @ '' not defined'') (Some ERR_MATCHMAKE_NO_HANDLER))"
    by (simp add: findOneRoomAvailable_fst)
next
  fix h
  assume "handlers s rn = Some h"
  then have h: "handlers_get s rn = Registered h"
    by (rule handlers_get_registered)
  let ?conds = "spread [(''locked'', Bool False), (''name'', Str rn), (''private'', Bool False)]
                  (getFilterOptions h opts)"
  show r: "fst (findOneRoomAvailable E rn opts s) = Inr (findOne E ?conds (sortOptions h) s)"
    using h by (simp add: findOneRoomAvailable_fst availableConditions_def)
  fix l
  assume "fst (findOneRoomAvailable E rn opts s) = Inr (Some l)"
  then have "findOne E ?conds (sortOptions h) s = Some l"
    using r by simp
  then have m: "matches (availableConditions h rn opts) l"
    unfolding availableConditions_def by (rule findOne_found)
  show "obj_get l ''locked'' = Bool False"
    using m base_condition_matched [of h rn opts l "''locked''" "Bool False"] by simp
  show "obj_get l ''private'' = Bool False"
    using m base_condition_matched [of h rn opts l "''private''" "Bool False"] by simp
  show "obj_get l ''name'' = Str rn"
    using m base_condition_matched [of h rn opts l "''name''" "Str rn"] by simp
qed

lemma S1_handlers: "handlers S1 = [''chat'' \<mapsto> H0, ''full'' \<mapsto> H1]"
  by (simp add: S1_eq S0_def)

text \<open>
  A handler that filters by \<^verbatim>\<open>private\<close> and a client that asks for \<^verbatim>\<open>{private: true}\<close>:
  the key is ignored, and the private listing a peer has saved is not returned.
\<close>

lemma SP_search:
  "fst (findOneRoomAvailable E0 ''full'' [(''private'', Bool True)] SP) = Inr None"
  by (simp add: findOneRoomAvailable_fst handlers_get_def SP_def setup_matchmaker_def
        availableConditions_def getFilterOptions_def INVALID_OPTION_KEYS_def H1_def spread_def
        obj_set_def findOne_def matches_def LP_def obj_get_def)

text \<open>
  The outcome at names of each kind on the process \<open>p1\<close>: \<open>chat\<close> has a handler and an
  open room; \<open>poker\<close> is no name of anything; \<open>constructor\<close> has no handler and is
  inherited by the object, and the search for it fails with the \<^verbatim>\<open>TypeError\<close>, not with
  \<^verbatim>\<open>ERR_MATCHMAKE_NO_HANDLER\<close>.
\<close>

theorem findOneRoomAvailable_outcome_witness:
  "handlers S1 ''constructor'' = None \<and>
   fst (findOneRoomAvailable E0 ''constructor'' [] S1) =
     Inl (OtherError ''handler.getFilterOptions is not a function'') \<and>
   fst (findOneRoomAvailable E0 ''poker'' [] S1) =
     Inl (MatchMakeError (dq @ ''poker'' @ dq @ '' not defined'') (Some ERR_MATCHMAKE_NO_HANDLER)) \<and>
   fst (findOneRoomAvailable E0 ''chat'' [] S1) = Inr (Some L1) \<and>
   obj_get L1 ''locked'' = Bool False \<and> obj_get L1 ''private'' = Bool False \<and>
   obj_get L1 ''name'' = Str ''chat''"
proof -
  have c: "handlers S1 ''constructor'' = None \<and> ''constructor'' \<in> set objectPrototypeNames"
    by (simp add: S1_handlers objectPrototypeNames_def)
  have n: "handlers S1 ''poker'' = None \<and> ''poker'' \<notin> set (inheritedNames S1)"
    by (simp add: inheritedNames_def objectPrototypeNames_def S1_handlers)
  have h: "handlers S1 ''chat'' = Some H0"
    by (simp add: S1_handlers)
  note at_constructor = findOneRoomAvailable_outcome [of S1 "''constructor''" E0 "[]"]
  note at_poker = findOneRoomAvailable_outcome [of S1 "''poker''" E0 "[]"]
  note at_chat = findOneRoomAvailable_outcome [of S1 "''chat''" E0 "[]"]
  have a: "fst (findOneRoomAvailable E0 ''constructor'' [] S1) =
             Inl (OtherError ''handler.getFilterOptions is not a function'')"
    using at_constructor c by blast
  have b: "fst (findOneRoomAvailable E0 ''poker'' [] S1) =
     Inl (MatchMakeError (dq @ ''poker'' @ dq @ '' not defined'') (Some ERR_MATCHMAKE_NO_HANDLER))"
    using at_poker n by blast
  have "fst (findOneRoomAvailable E0 ''chat'' [] S1) =
          Inr (findOne E0
                 (spread [(''locked'', Bool False), (''name'', Str ''chat''), (''private'', Bool False)]
                    (getFilterOptions H0 []))
                 (sortOptions H0) S1)"
    using at_chat h by blast
  then have f: "fst (findOneRoomAvailable E0 ''chat'' [] S1) = Inr (Some L1)"
    by (simp add: getFilterOptions_def H0_def spread_def obj_set_def findOne_def S1_driver
          matches_def L1_def obj_get_def)
  then have g: "obj_get L1 ''locked'' = Bool False \<and> obj_get L1 ''private'' = Bool False \<and>
                obj_get L1 ''name'' = Str ''chat''"
    using at_chat h by blast
  show ?thesis
    using c a b f g by simp
qed

section \<open>Join or create, under retry\<close>







section \<open>The concurrency gate\<close>

lemma concurrencyKey: "getHandlerConcurrencyKey rn = ''c:'' @ rn"
  by (simp add: getHandlerConcurrencyKey_def)

lemma counter_incr: "fst (incr (presence s) k) = counter s k + 1"
  by (simp add: incr_def counter_def Let_def)

lemma gate_enter_fst:
  "fst (gate_enter E rn s) =
     (counter s (''c:'' @ rn),
      min (counter s (''c:'' @ rn) * 100) (int (REMOTE_ROOM_SHORT_TIMEOUT E)))"
  by (simp add: gate_enter_def concurrencyKey incr_def counter_def Let_def)

lemma gate_enter_presence:
  "presence (snd (gate_enter E rn s)) = snd (incr (presence s) (''c:'' @ rn))"
  by (simp add: gate_enter_def concurrencyKey Let_def emit_event_def split: prod.splits)

lemma gate_enter_counter:
  "counter (snd (gate_enter E rn s)) k =
     (if k = ''c:'' @ rn then counter s k + 1 else counter s k)"
  by (simp add: gate_enter_def concurrencyKey incr_def counter_def Let_def emit_event_def)

lemma gate_enter_trace:
  "trace (snd (gate_enter E rn s)) = trace s @ [SetTimeout (snd (fst (gate_enter E rn s)))]"
  by (simp add: gate_enter_def incr_def Let_def emit_event_def)

lemma gate_enter_rooms:
  "rooms (snd (gate_enter E rn s)) = rooms s"
  "handlers (snd (gate_enter E rn s)) = handlers s"
  by (simp_all add: gate_enter_def incr_def Let_def emit_event_def)

lemma gate_run_fst: "fst (gate_run rn cb s) = fst (cb s)"
  by (simp add: gate_run_def split: prod.splits)

lemma gate_run_snd:
  "snd (gate_run rn cb s) =
     (snd (cb s))\<lparr>presence := snd (decr (presence (snd (cb s))) (''c:'' @ rn))\<rparr>"
  by (simp add: gate_run_def concurrencyKey split: prod.splits)

lemma gate_run_counter:
  "counter (snd (gate_run rn cb s)) k =
     (if k = ''c:'' @ rn then counter (snd (cb s)) k - 1 else counter (snd (cb s)) k)"
  by (simp add: gate_run_snd decr_def counter_def Let_def)

lemma gate_steps_counter:
  "undisturbed (''c:'' @ rn) E rn steps s \<Longrightarrow>
     counter (gate_steps E rn steps s) (''c:'' @ rn) =
       counter s (''c:'' @ rn) + int (entered steps) - int (fired steps)"
proof (induction steps arbitrary: s)
  case Nil
  then show ?case by simp
next
  case (Cons st steps)
  show ?case
  proof (cases st)
    case Enters
    with Cons.prems have "undisturbed (''c:'' @ rn) E rn steps (snd (gate_enter E rn s))"
      by simp
    then show ?thesis
      using Enters Cons.IH [of "snd (gate_enter E rn s)"] by (simp add: gate_enter_counter)
  next
    case (Fires cb)
    with Cons.prems have "counter (snd (cb s)) (''c:'' @ rn) = counter s (''c:'' @ rn)"
      and "undisturbed (''c:'' @ rn) E rn steps (snd (gate_run rn cb s))"
      by simp_all
    then show ?thesis
      using Fires Cons.IH [of "snd (gate_run rn cb s)"] by (simp add: gate_run_counter)
  next
    case (Meanwhile f)
    with Cons.prems have "counter (f s) (''c:'' @ rn) = counter s (''c:'' @ rn)"
      and "undisturbed (''c:'' @ rn) E rn steps (f s)"
      by simp_all
    then show ?thesis
      using Meanwhile Cons.IH [of "f s"] by simp
  qed
qed

text \<open>
  C5, as the code has it. For every call through the gate
  \<^verbatim>\<open>awaitRoomAvailable(name, cb)\<close>: the observed concurrency is
  \<^verbatim>\<open>presence.incr("c:" + name) - 1\<close>, and that increment of the key \<^verbatim>\<open>c:<name>\<close> is what
  entering does to the presence; the delay asked of the timer before \<^verbatim>\<open>cb\<close> runs is
  \<^verbatim>\<open>min(concurrency * 100, REMOTE_ROOM_SHORT_TIMEOUT)\<close>, which is 0 for a joiner that
  finds the counter at 0; the result is that of \<^verbatim>\<open>cb\<close>, and after \<^verbatim>\<open>cb\<close>, whether it
  returned or threw, \<^verbatim>\<open>presence.decr("c:" + name)\<close> is what is done to the state \<^verbatim>\<open>cb\<close>
  left. So over any interleaving of joiners and of what the process does meanwhile, as
  long as no callback and nothing done meanwhile changes the value of \<^verbatim>\<open>c:<name>\<close>, the
  counter stands at its value before, plus the joiners that entered, minus those whose
  timer has fired: when every joiner that entered has completed it is back at its value
  before them (0 when it started at 0).
\<close>

theorem awaitRoomAvailable_gate:
  "fst (gate_enter E rn s) =
     (fst (incr (presence s) (''c:'' @ rn)) - 1,
      min ((fst (incr (presence s) (''c:'' @ rn)) - 1) * 100)
          (int (REMOTE_ROOM_SHORT_TIMEOUT E))) \<and>
   presence (snd (gate_enter E rn s)) = snd (incr (presence s) (''c:'' @ rn)) \<and>
   trace (snd (gate_enter E rn s)) = trace s @ [SetTimeout (snd (fst (gate_enter E rn s)))] \<and>
   (counter s (''c:'' @ rn) = 0 \<longrightarrow> snd (fst (gate_enter E rn s)) = 0) \<and>
   fst (awaitRoomAvailable E rn cb s) = fst (cb (snd (gate_enter E rn s))) \<and>
   snd (awaitRoomAvailable E rn cb s) =
     (snd (cb (snd (gate_enter E rn s))))
       \<lparr>presence := snd (decr (presence (snd (cb (snd (gate_enter E rn s))))) (''c:'' @ rn))\<rparr> \<and>
   (undisturbed (''c:'' @ rn) E rn steps s \<longrightarrow>
      counter (gate_steps E rn steps s) (''c:'' @ rn) =
        counter s (''c:'' @ rn) + int (entered steps) - int (fired steps)) \<and>
   (undisturbed (''c:'' @ rn) E rn steps s \<and> entered steps = fired steps \<longrightarrow>
      counter (gate_steps E rn steps s) (''c:'' @ rn) = counter s (''c:'' @ rn))"
proof (intro conjI impI)
  show "fst (gate_enter E rn s) =
     (fst (incr (presence s) (''c:'' @ rn)) - 1,
      min ((fst (incr (presence s) (''c:'' @ rn)) - 1) * 100)
          (int (REMOTE_ROOM_SHORT_TIMEOUT E)))"
    by (simp add: gate_enter_fst counter_incr)
  show "presence (snd (gate_enter E rn s)) = snd (incr (presence s) (''c:'' @ rn))"
    by (rule gate_enter_presence)
  show "trace (snd (gate_enter E rn s)) = trace s @ [SetTimeout (snd (fst (gate_enter E rn s)))]"
    by (rule gate_enter_trace)
  show "fst (awaitRoomAvailable E rn cb s) = fst (cb (snd (gate_enter E rn s)))"
    by (simp add: awaitRoomAvailable_def gate_run_fst)
  show "snd (awaitRoomAvailable E rn cb s) =
     (snd (cb (snd (gate_enter E rn s))))
       \<lparr>presence := snd (decr (presence (snd (cb (snd (gate_enter E rn s))))) (''c:'' @ rn))\<rparr>"
    by (simp add: awaitRoomAvailable_def gate_run_snd)
next
  assume "counter s (''c:'' @ rn) = 0"
  then show "snd (fst (gate_enter E rn s)) = 0"
    by (simp add: gate_enter_fst)
next
  assume "undisturbed (''c:'' @ rn) E rn steps s"
  then show "counter (gate_steps E rn steps s) (''c:'' @ rn) =
        counter s (''c:'' @ rn) + int (entered steps) - int (fired steps)"
    by (rule gate_steps_counter)
next
  assume "undisturbed (''c:'' @ rn) E rn steps s \<and> entered steps = fired steps"
  then show "counter (gate_steps E rn steps s) (''c:'' @ rn) = counter s (''c:'' @ rn)"
    using gate_steps_counter [of rn E steps s] by simp
qed

lemma disposeRoom_counter:
  "handlers s rn = Some h \<Longrightarrow> counter (snd (disposeRoom rn r s)) (''c:'' @ rn) = 0"
  by (simp add: disposeRoom_def Let_def handler_emit_def handlers_get_registered
        clearRoomReferences_def del_def unsubscribe_def counter_def emit_event_def
        concurrencyKey)

lemma probeRoom_counter:
  "counter s k = 0 \<Longrightarrow> counter (probeRoom E rn cached s) k = 0"
proof -
  assume z: "counter s k = 0"
  let ?call = "remoteRoomCall E (js_toString (obj_get cached ''roomId'')) ''roomId'' None
                 (REMOTE_ROOM_SHORT_TIMEOUT E) s"
  have "presence (snd ?call) = presence s"
    by (simp add: remoteRoomCall_state emit_event_def)
  with z show ?thesis
    by (cases ?call)
       (auto simp: probeRoom_def Let_def clearRoomReferences_def del_def counter_def
          split: sum.splits option.splits)
qed

lemma fold_probeRoom_counter:
  "counter s k = 0 \<Longrightarrow> counter (fold (probeRoom E rn) cachedRooms s) k = 0"
  by (induction cachedRooms arbitrary: s) (simp_all add: probeRoom_counter)

lemma cleanupStaleRooms_counter: "counter (cleanupStaleRooms E rn s) (''c:'' @ rn) = 0"
  unfolding cleanupStaleRooms_def Let_def concurrencyKey
  by (rule fold_probeRoom_counter) (simp add: counter_def del_def)

lemma S1_counter: "counter S1 k = 0"
  by (simp add: counter_def S1_eq S0_def setup_matchmaker_def hset_def subscribe_def P0_def)

lemma findAvailable_state: "snd (findAvailable E rn opts s) = s"
  by (simp add: findAvailable_def split: lookup.splits)

lemma throwing_state: "snd (throwing s) = s"
  by (simp add: throwing_def)

lemma gate_run_rooms:
  "snd (cb s) = s \<Longrightarrow> rooms (snd (gate_run rn cb s)) = rooms s"
  "snd (cb s) = s \<Longrightarrow> handlers (snd (gate_run rn cb s)) = handlers s"
  by (simp_all add: gate_run_snd)

lemma lockRoom_counter:
  "k \<noteq> roomId r \<Longrightarrow> counter (snd (lockRoom rn r s)) k = counter s k"
  by (simp add: lockRoom_def handler_emit_def clearRoomReferences_def del_def counter_def
        emit_event_def handlers_get_def inheritedNames_def split: lookup.splits option.splits)

lemma lockRoom_rooms:
  "rooms (snd (lockRoom rn r s)) = rooms s"
  "handlers (snd (lockRoom rn r s)) = handlers s"
  by (simp_all add: lockRoom_def handler_emit_def clearRoomReferences_def emit_event_def
        split: lookup.splits)

lemma undisturbed_witness:
  "undisturbed ''c:chat'' E0 ''chat''
     [Enters, Enters, Meanwhile (room_emits ''id0'' ''lock''),
      Fires (findAvailable E0 ''chat'' []), Enters, Fires throwing,
      Fires (findAvailable E0 ''chat'' [])] S1"
  by (simp add: findAvailable_state throwing_state room_emits_def gate_enter_rooms S1_rooms
        lockRoom_counter R1_def)

text \<open>
  The gate on the process \<open>p1\<close> with its \<open>chat\<close> room: entering puts \<^verbatim>\<open>c:chat\<close> at 1; a
  single joiner waits 0 ms, a tenth one 900 ms; a callback that throws leaves the
  counter at 0; and so do three joiners, interleaved with the room locking itself.
\<close>

theorem awaitRoomAvailable_gate_witness:
  "counter (snd (gate_enter E0 ''chat'' S1)) ''c:chat'' = 1 \<and>
   snd (fst (gate_enter E0 ''chat'' S1)) = 0 \<and>
   snd (fst (gate_enter E0 ''chat''
               (gate_steps E0 ''chat''
                  [Enters, Enters, Enters, Enters, Enters, Enters, Enters, Enters,
                   Enters :: (obj option) gate_step] S1))) = 900 \<and>
   counter (snd (awaitRoomAvailable E0 ''chat'' throwing S1)) ''c:chat'' = 0 \<and>
   counter (gate_steps E0 ''chat''
              [Enters, Enters, Meanwhile (room_emits ''id0'' ''lock''),
               Fires (findAvailable E0 ''chat'' []), Enters, Fires throwing,
               Fires (findAvailable E0 ''chat'' [])] S1) ''c:chat'' = 0"
proof -
  let ?steps = "[Enters, Enters, Meanwhile (room_emits ''id0'' ''lock''),
                 Fires (findAvailable E0 ''chat'' []), Enters, Fires throwing,
                 Fires (findAvailable E0 ''chat'' [])]"
  let ?nine = "[Enters, Enters, Enters, Enters, Enters, Enters, Enters, Enters,
                Enters :: (obj option) gate_step]"
  let ?s9 = "gate_steps E0 ''chat'' ?nine S1"
  note gate = awaitRoomAvailable_gate [of E0 "''chat''" S1 throwing ?steps]
  note nine = awaitRoomAvailable_gate [of E0 "''chat''" S1 throwing ?nine]
  note tenth = awaitRoomAvailable_gate [of E0 "''chat''" ?s9 throwing "[]"]
  have z: "counter S1 (''c:'' @ ''chat'') = 0"
    by (rule S1_counter)
  have "presence (snd (gate_enter E0 ''chat'' S1)) = snd (incr (presence S1) (''c:'' @ ''chat''))"
    using gate by blast
  then have a: "counter (snd (gate_enter E0 ''chat'' S1)) ''c:chat'' = 1"
    using z by (simp add: counter_def incr_def Let_def)
  have b: "snd (fst (gate_enter E0 ''chat'' S1)) = 0"
    using gate z by blast
  have "undisturbed (''c:'' @ ''chat'') E0 ''chat'' ?nine S1"
    by simp
  then have "counter ?s9 (''c:'' @ ''chat'') =
               counter S1 (''c:'' @ ''chat'') + int (entered ?nine) - int (fired ?nine)"
    using nine by blast
  then have "counter ?s9 (''c:'' @ ''chat'') = 9"
    using z by simp
  then have "fst (incr (presence ?s9) (''c:'' @ ''chat'')) = 10"
    by (simp add: counter_incr)
  moreover have "fst (gate_enter E0 ''chat'' ?s9) =
      (fst (incr (presence ?s9) (''c:'' @ ''chat'')) - 1,
       min ((fst (incr (presence ?s9) (''c:'' @ ''chat'')) - 1) * 100)
           (int (REMOTE_ROOM_SHORT_TIMEOUT E0)))"
    using tenth by blast
  ultimately have c: "snd (fst (gate_enter E0 ''chat'' ?s9)) = 900"
    by (simp add: E0_fields)
  have "snd (awaitRoomAvailable E0 ''chat'' throwing S1) =
     (snd (throwing (snd (gate_enter E0 ''chat'' S1))))
       \<lparr>presence := snd (decr (presence (snd (throwing (snd (gate_enter E0 ''chat'' S1)))))
                         (''c:'' @ ''chat''))\<rparr>"
    using gate by blast
  then have d: "counter (snd (awaitRoomAvailable E0 ''chat'' throwing S1)) ''c:chat'' = 0"
    using a by (simp add: throwing_state counter_def decr_def Let_def)
  have "undisturbed (''c:'' @ ''chat'') E0 ''chat'' ?steps S1"
    using undisturbed_witness by simp
  moreover have "entered ?steps = fired ?steps"
    by simp
  ultimately have "counter (gate_steps E0 ''chat'' ?steps S1) (''c:'' @ ''chat'') =
                     counter S1 (''c:'' @ ''chat'')"
    using gate by blast
  then have e: "counter (gate_steps E0 ''chat'' ?steps S1) ''c:chat'' = 0"
    using z by simp
  show ?thesis
    using a b c d e by simp
qed

text \<open>
  The claim C5 as it is written (after all joiners complete the counter is back to 0)
  fails when a room of that name is disposed while a joiner is in the gate:
  \<^verbatim>\<open>disposeRoom\<close> deletes the key \<^verbatim>\<open>c:<name>\<close> (\<open>disposeRoom_counter\<close>; so does
  \<^verbatim>\<open>cleanupStaleRooms\<close>, \<open>cleanupStaleRooms_counter\<close>), and the joiner's \<^verbatim>\<open>decr\<close>
  then leaves the counter at -1. Here the counter starts at 0, one joiner enters, the \<open>chat\<close> room
  of the process emits \<^verbatim>\<open>dispose\<close>, and the joiner's timer fires.
\<close>

theorem awaitRoomAvailable_counter_after_dispose:
  "counter S1 ''c:chat'' = 0 \<and>
   counter (snd (gate_enter E0 ''chat'' S1)) ''c:chat'' = 1 \<and>
   counter (room_emits ''id0'' ''dispose'' (snd (gate_enter E0 ''chat'' S1))) ''c:chat'' = 0 \<and>
   counter (gate_steps E0 ''chat''
              [Enters, Meanwhile (room_emits ''id0'' ''dispose''),
               Fires (findAvailable E0 ''chat'' [])] S1) ''c:chat'' = - 1"
proof -
  let ?s1 = "snd (gate_enter E0 ''chat'' S1)"
  let ?s2 = "room_emits ''id0'' ''dispose'' ?s1"
  have a: "counter ?s1 ''c:chat'' = 1"
    by (simp add: gate_enter_counter S1_counter)
  have "map_of (rooms ?s1) ''id0'' = Some R1"
    by (simp add: gate_enter_rooms S1_rooms)
  then have "?s2 = snd (disposeRoom ''chat'' R1 ?s1)"
    by (simp add: room_emits_def R1_def)
  moreover have "handlers ?s1 ''chat'' = Some H0"
    by (simp add: gate_enter_rooms S1_handlers)
  ultimately have "counter ?s2 (''c:'' @ ''chat'') = 0"
    using disposeRoom_counter [of ?s1 "''chat''" H0 R1] by simp
  then have b: "counter ?s2 ''c:chat'' = 0"
    by simp
  have "counter (gate_steps E0 ''chat''
              [Enters, Meanwhile (room_emits ''id0'' ''dispose''),
               Fires (findAvailable E0 ''chat'' [])] S1) ''c:chat'' = counter ?s2 ''c:chat'' - 1"
    by (simp add: gate_run_counter findAvailable_state)
  with a b show ?thesis
    by (simp add: S1_counter)
qed

section \<open>Placing a new room\<close>

lemma compare_negative: "compareRoomCount h a b < 0 \<longleftrightarrow> roomCount h a \<le> roomCount h b"
  by (simp add: compareRoomCount_def)

lemma first_of_sorted_is_least:
  assumes "sorted_wrt (\<lambda>a b. compareRoomCount h a b < 0) (p # ps)" and "q \<in> set (p # ps)"
  shows "roomCount h p \<le> roomCount h q"
  using assms by (auto simp: compare_negative)

lemma target_of_sorted:
  "processIdWithFewerRooms E s =
     (case arraySort E (compareRoomCount (hgetall (presence s) getRoomCountKey))
             (map fst (hgetall (presence s) getRoomCountKey)) of
        [] \<Rightarrow> processId s
      | p # ps \<Rightarrow> if p = [] then processId s else p)"
  by (simp add: processIdWithFewerRooms_def Let_def)

lemma createRoom_local:
  "processIdWithFewerRooms E s = processId s \<Longrightarrow>
     createRoom E rn co s = handleCreateRoom E rn co s"
  by (simp add: createRoom_def Let_def)

lemma createRoom_remote:
  "processIdWithFewerRooms E s \<noteq> processId s \<Longrightarrow>
     createRoom E rn co s =
       (case requestListingFromIPC E (now s)
               (getProcessChannel (processIdWithFewerRooms E s)) None (Some [Str rn, Obj co]) of
          Inr rm \<Rightarrow>
            (Inr rm,
             emit_event (IPCRequest (getProcessChannel (processIdWithFewerRooms E s)) None
                           (Some [Str rn, Obj co]) (Some (REMOTE_ROOM_SHORT_TIMEOUT E))) s)
        | Inl e \<Rightarrow>
            handleCreateRoom E rn co
              (emit_event (DebugAndPrintError e)
                 (emit_event (IPCRequest (getProcessChannel (processIdWithFewerRooms E s)) None
                                (Some [Str rn, Obj co]) (Some (REMOTE_ROOM_SHORT_TIMEOUT E))) s)))"
  by (simp add: createRoom_def Let_def split: sum.splits)

text \<open>
  The engine's sort of section \<open>The engine's sort\<close> returns, for the comparator of
  \<^verbatim>\<open>createRoom\<close> on any hash and any list of keys, the keys it was given, in an order in
  which no key stands before one with a smaller count.
\<close>

lemma run_while_chain:
  assumes "transp R"
  shows "sorted_wrt R (p # take (run_while (\<lambda>c q. R q c) p ys) ys)"
proof (induction ys arbitrary: p)
  case Nil
  then show ?case by simp
next
  case (Cons y ys)
  show ?case
  proof (cases "R p y")
    case False
    then show ?thesis by simp
  next
    case True
    have IH: "sorted_wrt R (y # take (run_while (\<lambda>c q. R q c) y ys) ys)"
      by (rule Cons.IH)
    then have "\<forall>z \<in> set (take (run_while (\<lambda>c q. R q c) y ys) ys). R y z"
      by simp
    with True assms have "\<forall>z \<in> set (take (run_while (\<lambda>c q. R q c) y ys) ys). R p z"
      by (meson transpD)
    with True IH show ?thesis by simp
  qed
qed

lemma first_run_sorted:
  "sorted_wrt (\<lambda>a b. roomCount h a \<le> roomCount h b)
     (let (runLength, descending) = countRun (compareRoomCount h) xs
      in if descending then rev (take runLength xs) else take runLength xs)"
proof (cases xs)
  case Nil
  then show ?thesis by (simp add: countRun_def)
next
  case (Cons x xs')
  show ?thesis
  proof (cases xs')
    case Nil
    with Cons show ?thesis by (simp add: countRun_def)
  next
    case (Cons y ys)
    show ?thesis
    proof (cases "compareRoomCount h y x < 0")
      case True
      have t: "transp (\<lambda>a b. roomCount h b \<le> roomCount h a)"
        by (auto simp: transp_def)
      have "(\<lambda>c q. compareRoomCount h c q < 0) = (\<lambda>c q. roomCount h c \<le> roomCount h q)"
        by (simp add: compareRoomCount_def fun_eq_iff)
      then have chain: "sorted_wrt (\<lambda>a b. roomCount h b \<le> roomCount h a)
                   (y # take (run_while (\<lambda>c q. compareRoomCount h c q < 0) y ys) ys)"
        using run_while_chain [OF t, of y ys] by simp
      from True have xy: "roomCount h y \<le> roomCount h x"
        by (simp add: compareRoomCount_def split: if_splits)
      from chain xy have "sorted_wrt (\<lambda>a b. roomCount h b \<le> roomCount h a)
                   (x # y # take (run_while (\<lambda>c q. compareRoomCount h c q < 0) y ys) ys)"
        by auto
      then have "sorted_wrt (\<lambda>a b. roomCount h a \<le> roomCount h b)
                   (rev (x # y # take (run_while (\<lambda>c q. compareRoomCount h c q < 0) y ys) ys))"
        unfolding sorted_wrt_rev .
      with True \<open>xs = x # xs'\<close> Cons show ?thesis
        by (simp add: countRun_def)
    next
      case False
      have t: "transp (\<lambda>a b. roomCount h a < roomCount h b)"
        by (auto simp: transp_def)
      have "(\<lambda>c q. \<not> compareRoomCount h c q < 0) = (\<lambda>c q. roomCount h q < roomCount h c)"
        by (simp add: compareRoomCount_def fun_eq_iff)
      then have chain: "sorted_wrt (\<lambda>a b. roomCount h a < roomCount h b)
                   (y # take (run_while (\<lambda>c q. \<not> compareRoomCount h c q < 0) y ys) ys)"
        using run_while_chain [OF t, of y ys] by simp
      from False have xy: "roomCount h x < roomCount h y"
        by (simp add: compareRoomCount_def split: if_splits)
      from chain xy have "sorted_wrt (\<lambda>a b. roomCount h a < roomCount h b)
                   (x # y # take (run_while (\<lambda>c q. \<not> compareRoomCount h c q < 0) y ys) ys)"
        by auto
      then have "sorted_wrt (\<lambda>a b. roomCount h a \<le> roomCount h b)
                   (x # y # take (run_while (\<lambda>c q. \<not> compareRoomCount h c q < 0) y ys) ys)"
        by (rule sorted_wrt_mono_rel [rotated]) simp
      with False \<open>xs = x # xs'\<close> Cons show ?thesis
        by (simp add: countRun_def)
    qed
  qed
qed

lemma binarySearch_bounds:
  assumes "sorted_wrt (\<lambda>a b. roomCount h a \<le> roomCount h b) ys"
    and "left \<le> right" and "right \<le> length ys"
    and "\<forall>i < left. roomCount h (ys ! i) < roomCount h pivot"
    and "\<forall>i. right \<le> i \<and> i < length ys \<longrightarrow> roomCount h pivot \<le> roomCount h (ys ! i)"
  shows "binarySearch (compareRoomCount h) pivot ys left right \<le> length ys \<and>
         (\<forall>i < binarySearch (compareRoomCount h) pivot ys left right.
             roomCount h (ys ! i) < roomCount h pivot) \<and>
         (\<forall>i. binarySearch (compareRoomCount h) pivot ys left right \<le> i \<and> i < length ys \<longrightarrow>
             roomCount h pivot \<le> roomCount h (ys ! i))"
  using assms
proof (induction "compareRoomCount h" pivot ys left right rule: binarySearch.induct)
  case (1 pivot ys left right)
  let ?mid = "left + (right - left) div 2"
  show ?case
  proof (cases "left < right")
    case False
    have at: "binarySearch (compareRoomCount h) pivot ys left right = left"
      using False by (subst binarySearch.simps) simp
    from False "1.prems" have "left = right" by simp
    with "1.prems" show ?thesis
      unfolding at by simp
  next
    case True
    then have mid: "left \<le> ?mid" "?mid < right" by auto
    with "1.prems" have midlen: "?mid < length ys" by simp
    show ?thesis
    proof (cases "compareRoomCount h pivot (ys ! ?mid) < 0")
      case neg: True
      then have le: "roomCount h pivot \<le> roomCount h (ys ! ?mid)"
        by (simp add: compareRoomCount_def split: if_splits)
      have upper: "\<forall>i. ?mid \<le> i \<and> i < length ys \<longrightarrow> roomCount h pivot \<le> roomCount h (ys ! i)"
      proof (intro allI impI)
        fix i assume i: "?mid \<le> i \<and> i < length ys"
        show "roomCount h pivot \<le> roomCount h (ys ! i)"
        proof (cases "i = ?mid")
          case True with le show ?thesis by simp
        next
          case False
          with i have "?mid < i" by simp
          with i "1.prems"(1) have "roomCount h (ys ! ?mid) \<le> roomCount h (ys ! i)"
            by (simp add: sorted_wrt_iff_nth_less)
          with le show ?thesis by simp
        qed
      qed
      have "binarySearch (compareRoomCount h) pivot ys left right =
            binarySearch (compareRoomCount h) pivot ys left ?mid"
        using True neg by (simp add: binarySearch.simps [of _ pivot ys left right] Let_def)
      moreover have "binarySearch (compareRoomCount h) pivot ys left ?mid \<le> length ys \<and>
         (\<forall>i < binarySearch (compareRoomCount h) pivot ys left ?mid.
             roomCount h (ys ! i) < roomCount h pivot) \<and>
         (\<forall>i. binarySearch (compareRoomCount h) pivot ys left ?mid \<le> i \<and> i < length ys \<longrightarrow>
             roomCount h pivot \<le> roomCount h (ys ! i))"
        using "1.hyps"(1) [OF True refl neg "1.prems"(1) mid(1) _ "1.prems"(4) upper] midlen
        by simp
      ultimately show ?thesis by simp
    next
      case nonneg: False
      then have gt: "roomCount h (ys ! ?mid) < roomCount h pivot"
        by (simp add: compareRoomCount_def split: if_splits)
      have lower: "\<forall>i < ?mid + 1. roomCount h (ys ! i) < roomCount h pivot"
      proof (intro allI impI)
        fix i assume i: "i < ?mid + 1"
        show "roomCount h (ys ! i) < roomCount h pivot"
        proof (cases "i = ?mid")
          case True with gt show ?thesis by simp
        next
          case False
          with i have "i < ?mid" by simp
          with midlen "1.prems"(1) have "roomCount h (ys ! i) \<le> roomCount h (ys ! ?mid)"
            by (simp add: sorted_wrt_iff_nth_less)
          with gt show ?thesis by simp
        qed
      qed
      have "binarySearch (compareRoomCount h) pivot ys left right =
            binarySearch (compareRoomCount h) pivot ys (?mid + 1) right"
        using True nonneg by (simp add: binarySearch.simps [of _ pivot ys left right] Let_def)
      moreover have "binarySearch (compareRoomCount h) pivot ys (?mid + 1) right \<le> length ys \<and>
         (\<forall>i < binarySearch (compareRoomCount h) pivot ys (?mid + 1) right.
             roomCount h (ys ! i) < roomCount h pivot) \<and>
         (\<forall>i. binarySearch (compareRoomCount h) pivot ys (?mid + 1) right \<le> i \<and> i < length ys \<longrightarrow>
             roomCount h pivot \<le> roomCount h (ys ! i))"
        using "1.hyps"(2) [OF True refl nonneg "1.prems"(1) _ "1.prems"(3) lower "1.prems"(5)] mid
        by simp
      ultimately show ?thesis by simp
    qed
  qed
qed

lemma binaryInsert_sorted:
  assumes "sorted_wrt (\<lambda>a b. roomCount h a \<le> roomCount h b) ys"
  shows "sorted_wrt (\<lambda>a b. roomCount h a \<le> roomCount h b)
           (binaryInsert (compareRoomCount h) pivot ys)"
proof -
  let ?at = "binarySearch (compareRoomCount h) pivot ys 0 (length ys)"
  have b: "?at \<le> length ys \<and>
         (\<forall>i < ?at. roomCount h (ys ! i) < roomCount h pivot) \<and>
         (\<forall>i. ?at \<le> i \<and> i < length ys \<longrightarrow> roomCount h pivot \<le> roomCount h (ys ! i))"
    by (rule binarySearch_bounds [OF assms]) simp_all
  have before: "\<forall>x \<in> set (take ?at ys). roomCount h x < roomCount h pivot"
  proof
    fix x assume "x \<in> set (take ?at ys)"
    then obtain i where "i < length (take ?at ys)" and "take ?at ys ! i = x"
      by (auto simp: in_set_conv_nth)
    with b show "roomCount h x < roomCount h pivot" by auto
  qed
  have after: "\<forall>x \<in> set (drop ?at ys). roomCount h pivot \<le> roomCount h x"
  proof
    fix x assume "x \<in> set (drop ?at ys)"
    then obtain i where "i < length (drop ?at ys)" and "drop ?at ys ! i = x"
      by (auto simp: in_set_conv_nth)
    with b show "roomCount h pivot \<le> roomCount h x" by auto
  qed
  have "sorted_wrt (\<lambda>a b. roomCount h a \<le> roomCount h b) (take ?at ys @ drop ?at ys)"
    using assms by simp
  then have parts: "sorted_wrt (\<lambda>a b. roomCount h a \<le> roomCount h b) (take ?at ys)"
    "sorted_wrt (\<lambda>a b. roomCount h a \<le> roomCount h b) (drop ?at ys)"
    unfolding sorted_wrt_append by simp_all
  have "sorted_wrt (\<lambda>a b. roomCount h a \<le> roomCount h b) (take ?at ys @ pivot # drop ?at ys)"
    unfolding sorted_wrt_append using parts before after by fastforce
  then show ?thesis by (simp add: binaryInsert_def Let_def)
qed

lemma binaryInsert_set: "set (binaryInsert cmp pivot ys) = insert pivot (set ys)"
proof -
  let ?at = "binarySearch cmp pivot ys 0 (length ys)"
  have "set (take ?at ys) \<union> set (drop ?at ys) = set ys"
    by (metis append_take_drop_id set_append)
  then have "set (take ?at ys @ pivot # drop ?at ys) = insert pivot (set ys)"
    by auto
  then show ?thesis by (simp add: binaryInsert_def Let_def)
qed

lemma fold_binaryInsert_sorted:
  "sorted_wrt (\<lambda>a b. roomCount h a \<le> roomCount h b) acc \<Longrightarrow>
     sorted_wrt (\<lambda>a b. roomCount h a \<le> roomCount h b)
       (fold (binaryInsert (compareRoomCount h)) zs acc)"
  by (induction zs arbitrary: acc) (simp_all add: binaryInsert_sorted)

lemma fold_binaryInsert_set: "set (fold (binaryInsert cmp) zs acc) = set zs \<union> set acc"
  by (induction zs arbitrary: acc) (auto simp: binaryInsert_set)

lemma timSortShort_set: "set (timSortShort cmp xs) = set xs"
proof -
  obtain n d where c: "countRun cmp xs = (n, d)" by (cases "countRun cmp xs")
  have "set (timSortShort cmp xs) = set (drop n xs) \<union> set (take n xs)"
    by (simp add: timSortShort_def c fold_binaryInsert_set)
  also have "\<dots> = set xs"
    by (metis append_take_drop_id set_append sup_commute)
  finally show ?thesis .
qed

lemma timSortShort_ordered:
  "sorted_wrt (\<lambda>a b. compareRoomCount h a b < 0) (timSortShort (compareRoomCount h) xs)"
proof -
  have rel: "(\<lambda>a b. compareRoomCount h a b < 0) = (\<lambda>a b. roomCount h a \<le> roomCount h b)"
    by (simp add: compareRoomCount_def fun_eq_iff)
  obtain n d where c: "countRun (compareRoomCount h) xs = (n, d)"
    by (cases "countRun (compareRoomCount h) xs")
  have "sorted_wrt (\<lambda>a b. roomCount h a \<le> roomCount h b)
          (if d then rev (take n xs) else take n xs)"
    using first_run_sorted [of h xs] by (simp add: c)
  then have "sorted_wrt (\<lambda>a b. roomCount h a \<le> roomCount h b)
          (fold (binaryInsert (compareRoomCount h)) (drop n xs)
             (if d then rev (take n xs) else take n xs))"
    by (rule fold_binaryInsert_sorted)
  then show ?thesis
    unfolding rel by (simp add: timSortShort_def c)
qed

text \<open>
  C3, as the code has it. \<^verbatim>\<open>createRoom\<close> sorts the process ids of the room-count hash
  with a comparator that is 1 when the first has more rooms and -1 otherwise, and takes
  the first. The comparator never returns 0, so the order of the result is the engine's
  to choose; the statement is for every engine whose sort returns the keys it was given
  (\<open>same\<close>) in an order in which no key stands before one with a smaller count
  (\<open>ordered\<close>), as the sort of V8 does (\<open>timSortShort_set\<close>, \<open>timSortShort_ordered\<close>).
  Then: with an empty hash the target is the calling process; otherwise the target is a
  process whose count no other process undercuts (the calling process when that key is
  the empty string), and when one process has the strictly smallest count the target is
  that process. Which of several processes with the same smallest count is taken is
  left to the engine. When the target is the calling process the room is created by
  \<^verbatim>\<open>handleCreateRoom\<close> locally; otherwise the create request goes to \<^verbatim>\<open>p:<target>\<close>,
  its answer is the result, and on any failure of the request the failure is logged and
  \<^verbatim>\<open>handleCreateRoom\<close> runs locally.
\<close>

theorem createRoom_placement:
  assumes h: "h = hgetall (presence s) getRoomCountKey"
    and ks: "ks = arraySort E (compareRoomCount h) (map fst h)"
    and same: "set ks = fst ` set h"
    and ordered: "sorted_wrt (\<lambda>a b. compareRoomCount h a b < 0) ks"
    and target: "target = processIdWithFewerRooms E s"
  shows "(h = [] \<longrightarrow> target = processId s) \<and>
         (h \<noteq> [] \<longrightarrow>
            (\<exists>p \<in> fst ` set h. (\<forall>q \<in> fst ` set h. roomCount h p \<le> roomCount h q) \<and>
               target = (if p = [] then processId s else p))) \<and>
         (\<forall>p \<in> fst ` set h. (\<forall>q \<in> fst ` set h. q \<noteq> p \<longrightarrow> roomCount h p < roomCount h q) \<longrightarrow>
            target = (if p = [] then processId s else p)) \<and>
         (target = processId s \<longrightarrow> createRoom E rn co s = handleCreateRoom E rn co s) \<and>
         (target \<noteq> processId s \<longrightarrow>
            createRoom E rn co s =
              (case requestListingFromIPC E (now s) (getProcessChannel target) None
                      (Some [Str rn, Obj co]) of
                 Inr rm \<Rightarrow>
                   (Inr rm,
                    emit_event (IPCRequest (getProcessChannel target) None
                                  (Some [Str rn, Obj co]) (Some (REMOTE_ROOM_SHORT_TIMEOUT E))) s)
               | Inl e \<Rightarrow>
                   handleCreateRoom E rn co
                     (emit_event (DebugAndPrintError e)
                        (emit_event (IPCRequest (getProcessChannel target) None
                                       (Some [Str rn, Obj co])
                                       (Some (REMOTE_ROOM_SHORT_TIMEOUT E))) s))))"
proof -
  have t: "target = (case ks of [] \<Rightarrow> processId s | p # ps \<Rightarrow> if p = [] then processId s else p)"
    unfolding target ks h by (rule target_of_sorted)
  have empty: "h = [] \<longrightarrow> target = processId s"
  proof
    assume "h = []"
    with same have "ks = []" by simp
    with t show "target = processId s" by simp
  qed
  have least: "h \<noteq> [] \<longrightarrow>
            (\<exists>p \<in> fst ` set h. (\<forall>q \<in> fst ` set h. roomCount h p \<le> roomCount h q) \<and>
               target = (if p = [] then processId s else p))"
  proof
    assume "h \<noteq> []"
    with same have "ks \<noteq> []" by auto
    then obtain p ps where c: "ks = p # ps" by (cases ks) auto
    have "\<forall>q \<in> set ks. roomCount h p \<le> roomCount h q"
      using first_of_sorted_is_least ordered unfolding c by blast
    moreover have "p \<in> set ks" by (simp add: c)
    moreover have "target = (if p = [] then processId s else p)" using t by (simp add: c)
    ultimately show "\<exists>p \<in> fst ` set h. (\<forall>q \<in> fst ` set h. roomCount h p \<le> roomCount h q) \<and>
               target = (if p = [] then processId s else p)"
      unfolding same by blast
  qed
  have strict: "\<forall>p \<in> fst ` set h.
      (\<forall>q \<in> fst ` set h. q \<noteq> p \<longrightarrow> roomCount h p < roomCount h q) \<longrightarrow>
      target = (if p = [] then processId s else p)"
  proof (intro ballI impI)
    fix p
    assume p: "p \<in> fst ` set h"
      and less: "\<forall>q \<in> fst ` set h. q \<noteq> p \<longrightarrow> roomCount h p < roomCount h q"
    from p same have "ks \<noteq> []" by auto
    then obtain p' ps where c: "ks = p' # ps" by (cases ks) auto
    have "p \<in> set ks" using p same by simp
    then have "roomCount h p' \<le> roomCount h p"
      using first_of_sorted_is_least ordered unfolding c by blast
    moreover have "p' \<in> set ks" by (simp add: c)
    then have "p' \<in> fst ` set h" unfolding same .
    moreover note this
    ultimately have "p' = p" using less by (metis not_less)
    then show "target = (if p = [] then processId s else p)" using t by (simp add: c)
  qed
  have loc: "target = processId s \<longrightarrow> createRoom E rn co s = handleCreateRoom E rn co s"
    unfolding target using createRoom_local [of E s rn co] by blast
  have rem: "target \<noteq> processId s \<longrightarrow>
            createRoom E rn co s =
              (case requestListingFromIPC E (now s) (getProcessChannel target) None
                      (Some [Str rn, Obj co]) of
                 Inr rm \<Rightarrow>
                   (Inr rm,
                    emit_event (IPCRequest (getProcessChannel target) None
                                  (Some [Str rn, Obj co]) (Some (REMOTE_ROOM_SHORT_TIMEOUT E))) s)
               | Inl e \<Rightarrow>
                   handleCreateRoom E rn co
                     (emit_event (DebugAndPrintError e)
                        (emit_event (IPCRequest (getProcessChannel target) None
                                       (Some [Str rn, Obj co])
                                       (Some (REMOTE_ROOM_SHORT_TIMEOUT E))) s)))"
    unfolding target using createRoom_remote [of E s rn co] by blast
  from empty least strict loc rem show ?thesis
    by (intro conjI)
qed

lemma S3_hash: "hgetall (presence S3) getRoomCountKey = [(''p1'', 3), (''p2'', 1)]"
  by (simp add: S3_def S0_def P0_def setup_matchmaker_def hset_def subscribe_def hgetall_def)

lemma S4_hash: "hgetall (presence S4) getRoomCountKey = [(''p1'', 0), (''p2'', 0)]"
  by (simp add: S4_def S0_def P0_def setup_matchmaker_def hset_def subscribe_def hgetall_def)

lemma S3_sorted:
  "arraySort E0 (compareRoomCount [(''p1'', 3), (''p2'', 1)]) [''p1'', ''p2''] = [''p2'', ''p1'']"
  by (simp add: E0_def timSortShort_def countRun_def compareRoomCount_def roomCount_def)

lemma S4_sorted:
  "arraySort E0 (compareRoomCount [(''p1'', 0), (''p2'', 0)]) [''p1'', ''p2''] = [''p2'', ''p1'']"
  by (simp add: E0_def timSortShort_def countRun_def compareRoomCount_def roomCount_def)

text \<open>
  The claim C3 as it is written (ties are broken by the stable order of the process-id
  keys) fails on the engine of Node.js 11 and later: with two processes at the same
  count, the hash's first key \<open>p1\<close> (also the smaller id, and the calling process) is
  passed over for \<open>p2\<close>, since the run of both keys counts as descending and is
  reversed.
\<close>

theorem createRoom_tie_not_first_key:
  "hgetall (presence S4) getRoomCountKey = [(''p1'', 0), (''p2'', 0)] \<and>
   arraySort E0 (compareRoomCount [(''p1'', 0), (''p2'', 0)]) [''p1'', ''p2''] = [''p2'', ''p1''] \<and>
   processIdWithFewerRooms E0 S4 = ''p2''"
  by (simp add: target_of_sorted S4_hash S4_sorted)

theorem createRoom_placement_witness:
  "processIdWithFewerRooms E0 S3 = ''p2'' \<and>
   createRoom E0 ''chat'' [] S3 =
     handleCreateRoom E0 ''chat'' []
       (emit_event (DebugAndPrintError (OtherError ''timed out''))
          (emit_event (IPCRequest ''p:p2'' None (Some [Str ''chat'', Obj []]) (Some 2000)) S3))"
proof -
  let ?h = "[(''p1'', 3), (''p2'', 1)]"
  have t: "''p2'' = processIdWithFewerRooms E0 S3"
    by (simp add: target_of_sorted S3_hash S3_sorted)
  have p: "processId S3 = ''p1''"
    by (simp add: S3_def S0_def setup_matchmaker_def)
  have h: "?h = hgetall (presence S3) getRoomCountKey"
    by (simp add: S3_hash)
  have ks: "[''p2'', ''p1''] = arraySort E0 (compareRoomCount ?h) (map fst ?h)"
    by (simp add: S3_sorted)
  have engine: "arraySort E0 = timSortShort"
    by (simp add: E0_def)
  have "set (arraySort E0 (compareRoomCount ?h) (map fst ?h)) = fst ` set ?h"
    unfolding engine timSortShort_set by simp
  then have same: "set [''p2'', ''p1''] = fst ` set ?h"
    unfolding ks [symmetric] .
  have "sorted_wrt (\<lambda>a b. compareRoomCount ?h a b < 0)
          (arraySort E0 (compareRoomCount ?h) (map fst ?h))"
    unfolding engine by (rule timSortShort_ordered)
  then have ordered: "sorted_wrt (\<lambda>a b. compareRoomCount ?h a b < 0) [''p2'', ''p1'']"
    unfolding ks [symmetric] .
  note placed = createRoom_placement [OF h ks same ordered t, of "''chat''" "[]"]
  then have "createRoom E0 ''chat'' [] S3 =
     (case requestListingFromIPC E0 (now S3) (getProcessChannel ''p2'') None
             (Some [Str ''chat'', Obj []]) of
        Inr rm \<Rightarrow>
          (Inr rm,
           emit_event (IPCRequest (getProcessChannel ''p2'') None
                         (Some [Str ''chat'', Obj []]) (Some (REMOTE_ROOM_SHORT_TIMEOUT E0))) S3)
      | Inl e \<Rightarrow>
          handleCreateRoom E0 ''chat'' []
            (emit_event (DebugAndPrintError e)
               (emit_event (IPCRequest (getProcessChannel ''p2'') None
                              (Some [Str ''chat'', Obj []])
                              (Some (REMOTE_ROOM_SHORT_TIMEOUT E0))) S3)))"
    using p by simp
  then show ?thesis
    using t by (simp add: E0_fields getProcessChannel_def)
qed

section \<open>The local room table and the room channels\<close>

lemma refs_ok_same:
  "rooms s' = rooms s \<Longrightarrow> subscriptions (presence s') = subscriptions (presence s) \<Longrightarrow>
     refs_ok s \<Longrightarrow> refs_ok s'"
  by (simp add: refs_ok_def)

lemma set_update_subset: "set (AList.update k v al) \<subseteq> insert (k, v) (set al)"
  by (induction al) auto

lemma set_delete: "set (AList.delete k al) = {(k', v) \<in> set al. k' \<noteq> k}"
  by (auto simp: AList.delete_eq)

lemma room_channel_inj: "getRoomChannel a = getRoomChannel b \<longleftrightarrow> a = b"
  by (simp add: getRoomChannel_def)

lemma room_channel_not_process: "getRoomChannel a \<noteq> getProcessChannel b"
  by (simp add: getRoomChannel_def getProcessChannel_def)

lemma refs_ok_remoteRoomCall: "refs_ok s \<Longrightarrow> refs_ok (snd (remoteRoomCall E rid m args t s))"
  by (rule refs_ok_same [of _ s]) (simp_all add: remoteRoomCall_state emit_event_def)

lemma reserveSeatFor_state:
  "rooms (snd (reserveSeatFor E rm opts s)) = rooms s \<and>
   presence (snd (reserveSeatFor E rm opts s)) = presence s"
  unfolding reserveSeatFor_def freshId_def Let_def
  using remoteRoomCall_state [of E "js_toString (obj_get rm ''roomId'')" "''_reserveSeat''"
          "Some [Str (generateId E (idsDrawn s)), Obj opts]" "REMOTE_ROOM_SHORT_TIMEOUT E"
          "s\<lparr>idsDrawn := Suc (idsDrawn s)\<rparr>"]
  by (cases "remoteRoomCall E (js_toString (obj_get rm ''roomId'')) ''_reserveSeat''
               (Some [Str (generateId E (idsDrawn s)), Obj opts]) (REMOTE_ROOM_SHORT_TIMEOUT E)
               (s\<lparr>idsDrawn := Suc (idsDrawn s)\<rparr>)")
     (auto simp: emit_event_def split: sum.splits)

lemma refs_ok_reserveSeatFor: "refs_ok s \<Longrightarrow> refs_ok (snd (reserveSeatFor E rm opts s))"
  by (rule refs_ok_same [of _ s]) (simp_all add: reserveSeatFor_state)

lemma refs_ok_findOneRoomAvailable:
  "refs_ok s \<Longrightarrow> refs_ok (snd (findOneRoomAvailable E rn opts s))"
  by (rule refs_ok_same [of _ s])
     (simp_all add: findOneRoomAvailable_def awaitRoomAvailable_def gate_run_def gate_enter_def
        findAvailable_def Let_def emit_event_def incr_def decr_def
        split: lookup.splits prod.splits)

lemma refs_ok_grown:
  assumes "refs_ok s"
    and "rooms s' = AList.update (roomId r) r (rooms s)"
    and "subscriptions (presence s') = insert (getRoomChannel (roomId r)) (subscriptions (presence s))"
  shows "refs_ok s'"
proof -
  have "set (AList.update (roomId r) r (rooms s)) \<subseteq> insert (roomId r, r) (set (rooms s))"
    by (rule set_update_subset)
  with assms show ?thesis
    by (auto simp: refs_ok_def)
qed

lemma handleCreateRoom_refs:
  "(rooms (snd (handleCreateRoom E rn co s)) = rooms s \<and>
    subscriptions (presence (snd (handleCreateRoom E rn co s))) = subscriptions (presence s)) \<or>
   (\<exists>r. rooms (snd (handleCreateRoom E rn co s)) = AList.update (roomId r) r (rooms s) \<and>
        subscriptions (presence (snd (handleCreateRoom E rn co s))) =
          insert (getRoomChannel (roomId r)) (subscriptions (presence s)))"
proof (cases "handlers_get s rn")
  case NotDefined
  then show ?thesis by (simp add: handleCreateRoom_def)
next
  case Inherited
  then show ?thesis by (simp add: handleCreateRoom_def)
next
  case (Registered h)
  show ?thesis
  proof (cases "onCreate (handlerKlass h)")
    case None
    with Registered show ?thesis
      by (simp add: handleCreateRoom_def freshId_def Let_def createRoomReferences_def
            subscribe_def emit_event_def) (metis room.select_convs(1))
  next
    case (Some f)
    show ?thesis
    proof (cases "f (now s) (merge [] co (options h))")
      case None
      with Some Registered show ?thesis
        by (simp add: handleCreateRoom_def freshId_def Let_def createRoomReferences_def
              subscribe_def emit_event_def now_def hincrby_def hset_def)
           (metis room.select_convs(1))
    next
      case (Some e)
      with \<open>onCreate (handlerKlass h) = Some f\<close> Registered show ?thesis
        by (simp add: handleCreateRoom_def freshId_def Let_def now_def emit_event_def)
    qed
  qed
qed

lemma refs_ok_handleCreateRoom:
  "refs_ok s \<Longrightarrow> refs_ok (snd (handleCreateRoom E rn co s))"
  using handleCreateRoom_refs [of E rn co s] refs_ok_same refs_ok_grown by blast

lemma refs_ok_emit_event: "refs_ok (emit_event ev s) = refs_ok s"
  by (simp add: refs_ok_def emit_event_def)

lemma refs_ok_createRoom: "refs_ok s \<Longrightarrow> refs_ok (snd (createRoom E rn co s))"
  by (auto simp: createRoom_def Let_def refs_ok_handleCreateRoom refs_ok_emit_event
        split: sum.splits)

lemma refs_ok_attempt: "refs_ok s \<Longrightarrow> refs_ok (snd (joinOrCreate_attempt E rn opts s))"
proof -
  assume ok: "refs_ok s"
  obtain r1 s1 where f: "findOneRoomAvailable E rn opts s = (r1, s1)"
    by (cases "findOneRoomAvailable E rn opts s")
  have ok1: "refs_ok s1"
    using refs_ok_findOneRoomAvailable [OF ok, of E rn opts] f by simp
  show ?thesis
  proof (cases r1)
    case (Inl e)
    with f ok1 show ?thesis by (simp add: joinOrCreate_attempt_def)
  next
    case (Inr found)
    show ?thesis
    proof (cases found)
      case (Some rm)
      with Inr f ok1 show ?thesis
        by (simp add: joinOrCreate_attempt_def refs_ok_reserveSeatFor)
    next
      case None
      obtain r2 s2 where c: "createRoom E rn opts s1 = (r2, s2)"
        by (cases "createRoom E rn opts s1")
      have ok2: "refs_ok s2"
        using refs_ok_createRoom [OF ok1, of E rn opts] c by simp
      from None Inr f c ok2 show ?thesis
        by (cases r2) (simp_all add: joinOrCreate_attempt_def refs_ok_reserveSeatFor)
    qed
  qed
qed

lemma refs_ok_retry:
  assumes "\<And>s. refs_ok s \<Longrightarrow> refs_ok (snd (cb s))"
  shows "refs_ok s \<Longrightarrow> refs_ok (snd (snd (retry_attempts cb n wl s)))"
proof (induction n arbitrary: s)
  case 0
  obtain res s' where cb: "cb s = (res, s')" by (cases "cb s")
  with assms [OF 0] have "refs_ok s'" by simp
  with cb show ?case by (cases res) simp_all
next
  case (Suc n)
  obtain res s' where cb: "cb s = (res, s')" by (cases "cb s")
  with assms [OF Suc.prems] have ok: "refs_ok s'" by simp
  show ?case
  proof (cases res)
    case (Inr v)
    with cb ok show ?thesis by simp
  next
    case (Inl e)
    with cb ok Suc.IH [OF ok] show ?thesis
      by (simp add: case_prod_unfold Let_def)
  qed
qed

lemma refs_ok_joinOrCreate: "refs_ok s \<Longrightarrow> refs_ok (snd (joinOrCreate E rn opts s))"
  unfolding joinOrCreate_def retry_def by (rule refs_ok_retry) (rule refs_ok_attempt)

lemma refs_ok_join_attempt: "refs_ok s \<Longrightarrow> refs_ok (snd (join_attempt E rn opts s))"
proof -
  assume ok: "refs_ok s"
  obtain r1 s1 where f: "findOneRoomAvailable E rn opts s = (r1, s1)"
    by (cases "findOneRoomAvailable E rn opts s")
  have ok1: "refs_ok s1"
    using refs_ok_findOneRoomAvailable [OF ok, of E rn opts] f by simp
  show ?thesis
  proof (cases r1)
    case (Inl e)
    with f ok1 show ?thesis by (simp add: join_attempt_def)
  next
    case (Inr found)
    with f ok1 show ?thesis
      by (cases found) (simp_all add: join_attempt_def refs_ok_reserveSeatFor)
  qed
qed

lemma refs_ok_join: "refs_ok s \<Longrightarrow> refs_ok (snd (join E rn opts s))"
  unfolding join_def retry_def by (rule refs_ok_retry) (rule refs_ok_join_attempt)

lemma refs_ok_create: "refs_ok s \<Longrightarrow> refs_ok (snd (create E rn opts s))"
proof -
  assume ok: "refs_ok s"
  obtain r1 s1 where c: "createRoom E rn opts s = (r1, s1)"
    by (cases "createRoom E rn opts s")
  have "refs_ok s1"
    using refs_ok_createRoom [OF ok, of E rn opts] c by simp
  with c show ?thesis
    by (cases r1) (simp_all add: create_def refs_ok_reserveSeatFor)
qed

lemma refs_ok_joinById: "refs_ok s \<Longrightarrow> refs_ok (snd (joinById E rid opts s))"
proof -
  assume ok: "refs_ok s"
  show ?thesis
  proof (cases "findOne E [(''roomId'', Str rid)] None s")
    case None
    with ok show ?thesis by (simp add: joinById_def)
  next
    case (Some rm)
    let ?call = "remoteRoomCall E (js_toString (obj_get rm ''roomId'')) ''hasReservedSeat''
                   (Some [obj_get opts ''sessionId'']) (REMOTE_ROOM_SHORT_TIMEOUT E) s"
    have "refs_ok (snd ?call)" using ok by (rule refs_ok_remoteRoomCall)
    with Some ok show ?thesis
      by (cases ?call) (auto simp: joinById_def Let_def refs_ok_reserveSeatFor split: sum.splits)
  qed
qed

lemma handler_emit_state:
  "rooms (snd (handler_emit hn ev r s)) = rooms s \<and>
   presence (snd (handler_emit hn ev r s)) = presence s \<and>
   driver (snd (handler_emit hn ev r s)) = driver s"
  by (simp add: handler_emit_def emit_event_def split: lookup.splits)

lemma lockRoom_state:
  "rooms (snd (lockRoom rn r s)) = rooms s \<and>
   subscriptions (presence (snd (lockRoom rn r s))) = subscriptions (presence s) \<and>
   keys (presence (snd (lockRoom rn r s))) = (keys (presence s))(roomId r := None) \<and>
   hashes (presence (snd (lockRoom rn r s))) = hashes (presence s) \<and>
   driver (snd (lockRoom rn r s)) = driver s"
  by (simp add: lockRoom_def handler_emit_state clearRoomReferences_def del_def)

lemma refs_ok_lockRoom: "refs_ok s \<Longrightarrow> refs_ok (snd (lockRoom rn r s))"
  by (rule refs_ok_same [of _ s]) (simp_all add: lockRoom_state)

lemma refs_ok_unlockRoom:
  assumes "refs_ok s" and "(k, r) \<in> set (rooms s)"
  shows "refs_ok (snd (unlockRoom rn r s))"
proof -
  from assms have id: "roomId r = k" by (auto simp: refs_ok_def)
  have "set (AList.update (roomId r) r (rooms s)) \<subseteq> insert (roomId r, r) (set (rooms s))"
    by (rule set_update_subset)
  with assms id have "set (AList.update (roomId r) r (rooms s)) \<subseteq> set (rooms s)" by auto
  with assms(1) show ?thesis
    by (auto simp: refs_ok_def unlockRoom_def handler_emit_state createRoomReferences_def)
qed

lemma refs_ok_disposeRoom:
  assumes "refs_ok s"
  shows "refs_ok (snd (disposeRoom rn r s))"
proof -
  let ?s1 = "if \<not> isGracefullyShuttingDown s
             then s\<lparr>presence := hincrby (presence s) getRoomCountKey (processId s) (- 1)\<rparr>
             else s"
  let ?s2 = "?s1\<lparr>driver := listing_remove (listing r) (driver ?s1)\<rparr>"
  have ok2: "refs_ok ?s2"
    using assms by (simp add: refs_ok_def hincrby_def hset_def)
  show ?thesis
  proof (cases "handlers_get ?s2 rn")
    case NotDefined
    then have "snd (disposeRoom rn r s) = ?s2"
      by (simp add: disposeRoom_def Let_def handler_emit_def)
    with ok2 show ?thesis by simp
  next
    case Inherited
    then have "snd (disposeRoom rn r s) = ?s2"
      by (simp add: disposeRoom_def Let_def handler_emit_def)
    with ok2 show ?thesis by simp
  next
    case (Registered h)
    then have rooms': "rooms (snd (disposeRoom rn r s)) = AList.delete (roomId r) (rooms s)"
      and subs': "subscriptions (presence (snd (disposeRoom rn r s))) =
                    subscriptions (presence s) - {getRoomChannel (roomId r)}"
      by (simp_all add: disposeRoom_def Let_def handler_emit_def emit_event_def
            clearRoomReferences_def del_def unsubscribe_def hincrby_def hset_def)
    show ?thesis
      using assms unfolding refs_ok_def rooms' subs' set_delete
      by (auto simp: room_channel_inj)
  qed
qed

lemma refs_ok_gracefullyShutdown: "refs_ok s \<Longrightarrow> refs_ok (snd (gracefullyShutdown s))"
  by (auto simp: refs_ok_def gracefullyShutdown_def Let_def hdel_def unsubscribe_def
        room_channel_not_process)

lemma refs_ok_probeRoom: "refs_ok s \<Longrightarrow> refs_ok (probeRoom E rn cached s)"
proof -
  assume ok: "refs_ok s"
  let ?call = "remoteRoomCall E (js_toString (obj_get cached ''roomId'')) ''roomId'' None
                 (REMOTE_ROOM_SHORT_TIMEOUT E) s"
  have "refs_ok (snd ?call)" using ok by (rule refs_ok_remoteRoomCall)
  then show ?thesis
    by (cases ?call)
       (auto simp: probeRoom_def Let_def refs_ok_def clearRoomReferences_def del_def
          split: sum.splits)
qed

lemma refs_ok_fold_probeRoom:
  "refs_ok s \<Longrightarrow> refs_ok (fold (probeRoom E rn) cachedRooms s)"
  by (induction cachedRooms arbitrary: s) (simp_all add: refs_ok_probeRoom)

lemma refs_ok_cleanupStaleRooms: "refs_ok s \<Longrightarrow> refs_ok (cleanupStaleRooms E rn s)"
  unfolding cleanupStaleRooms_def Let_def
  by (rule refs_ok_fold_probeRoom) (simp add: refs_ok_def del_def)

lemma refs_ok_room_emits: "refs_ok s \<Longrightarrow> refs_ok (room_emits rid ev s)"
proof (cases "map_of (rooms s) rid")
  case None
  assume "refs_ok s"
  with None show ?thesis by (simp add: room_emits_def)
next
  case (Some r)
  assume ok: "refs_ok s"
  from Some have "(rid, r) \<in> set (rooms s)" by (rule map_of_SomeD)
  with ok Some show ?thesis
    by (simp add: room_emits_def refs_ok_lockRoom refs_ok_unlockRoom refs_ok_disposeRoom)
qed

lemma refs_ok_registry: "refs_ok s \<Longrightarrow> refs_ok (cleanupStaleRooms E rn (s\<lparr>handlers := h\<rparr>))"
  by (rule refs_ok_cleanupStaleRooms) (simp add: refs_ok_def)

lemma refs_ok_perform: "refs_ok s \<Longrightarrow> refs_ok (perform E a s)"
  by (cases a)
     (simp_all add: defineRoomType_def removeRoomType_def refs_ok_registry
        refs_ok_cleanupStaleRooms
        refs_ok_joinOrCreate refs_ok_create refs_ok_join refs_ok_joinById
        refs_ok_handleCreateRoom refs_ok_room_emits refs_ok_gracefullyShutdown)

lemma refs_ok_run: "refs_ok s \<Longrightarrow> refs_ok (run E acts s)"
  unfolding run_def by (induction acts arbitrary: s) (simp_all add: refs_ok_perform)

lemma refs_ok_setup: "refs_ok (setup_matchmaker p d pid loaded)"
  by (simp add: refs_ok_def setup_matchmaker_def loaded_def)

text \<open>
  C1, as the code has it. When a room of the local table emits \<^verbatim>\<open>lock\<close>, the
  matchmaker (\<^verbatim>\<open>lockRoom\<close> calling \<^verbatim>\<open>clearRoomReferences\<close>) deletes the presence key
  named by the room id and emits \<^verbatim>\<open>lock\<close> on the room's handler; it leaves the local
  table and every subscription as they were, so a locked room keeps its subscription on
  \<^verbatim>\<open>$<roomId>\<close>. In every state a process reaches after \<^verbatim>\<open>setup\<close> (by calls of its
  public operations, create requests of peers and events of the rooms in its table),
  every room present in the local table is filed under its own id and has a live
  subscription on \<^verbatim>\<open>$<roomId>\<close>.
\<close>

theorem locked_room_stays_subscribed:
  "rooms (snd (lockRoom rn r s)) = rooms s \<and>
   subscriptions (presence (snd (lockRoom rn r s))) = subscriptions (presence s) \<and>
   keys (presence (snd (lockRoom rn r s))) = (keys (presence s))(roomId r := None) \<and>
   (handlers s (roomName r) \<noteq> None \<longrightarrow>
      trace (snd (lockRoom rn r s)) = trace s @ [HandlerEmit (roomName r) ''lock'' (roomId r)]) \<and>
   (\<forall>rid r'. map_of (rooms (run E acts (setup_matchmaker p d pid loaded))) rid = Some r' \<longrightarrow>
      roomId r' = rid \<and>
      getRoomChannel rid \<in> subscriptions (presence (run E acts (setup_matchmaker p d pid loaded))))"
proof (intro conjI allI impI)
  show "rooms (snd (lockRoom rn r s)) = rooms s"
    and "subscriptions (presence (snd (lockRoom rn r s))) = subscriptions (presence s)"
    and "keys (presence (snd (lockRoom rn r s))) = (keys (presence s))(roomId r := None)"
    by (simp_all add: lockRoom_state)
next
  assume "handlers s (roomName r) \<noteq> None"
  then show "trace (snd (lockRoom rn r s)) = trace s @ [HandlerEmit (roomName r) ''lock'' (roomId r)]"
    by (auto simp: lockRoom_def handler_emit_def handlers_get_registered
          clearRoomReferences_def emit_event_def)
next
  fix rid r'
  assume "map_of (rooms (run E acts (setup_matchmaker p d pid loaded))) rid = Some r'"
  then have "(rid, r') \<in> set (rooms (run E acts (setup_matchmaker p d pid loaded)))"
    by (rule map_of_SomeD)
  moreover have "refs_ok (run E acts (setup_matchmaker p d pid loaded))"
    by (rule refs_ok_run) (rule refs_ok_setup)
  ultimately show "roomId r' = rid"
    and "getRoomChannel rid \<in> subscriptions (presence (run E acts (setup_matchmaker p d pid loaded)))"
    by (auto simp: refs_ok_def)
qed

text \<open>
  The claim C1 as it is written (a locked room has no subscription on its channel and no
  seat can be reserved through it) fails on the process whose \<open>chat\<close> room locked
  itself: after the \<^verbatim>\<open>lock\<close> event the room is still in the table, the process is still
  subscribed to \<^verbatim>\<open>$id0\<close>, and \<^verbatim>\<open>reserveSeatFor\<close> reserves a seat in the room.
\<close>

theorem locked_room_still_subscribed:
  "map_of (rooms S1_locked) ''id0'' = Some R1_locked \<and>
   obj_get (listing R1_locked) ''locked'' = Bool True \<and>
   getRoomChannel ''id0'' \<in> subscriptions (presence S1_locked) \<and>
   fst (reserveSeatFor E0 L1_locked [] S1_locked) =
     Inr \<lparr>sessionId = Str ''id1'', room = L1_locked\<rparr>"
proof -
  have call: "\<And>args t. local_room_call R1_locked ''_reserveSeat'' args t = Inr (Bool True)"
    by (simp add: local_room_call_def room_member_def R1_locked_def R1_def K0_def)
  have rid: "js_toString (obj_get L1_locked ''roomId'') = ''id0''"
    by (simp add: L1_locked_def L1_def obj_get_def obj_set_def)
  have locked: "obj_get (listing R1_locked) ''locked'' = Bool True"
    by (simp add: R1_locked_def L1_locked_def L1_def obj_get_def obj_set_def)
  have gen: "generateId E0 (Suc 0) = ''id1''"
    by (simp add: E0_def show_nat.simps digit_char_def)
  show ?thesis
    by (simp add: S1_locked_rooms S1_locked_ids S1_locked_subscriptions locked
          getRoomChannel_def reserveSeatFor_def freshId_def Let_def remoteRoomCall_def call rid
          gen)
qed

theorem locked_room_stays_subscribed_witness:
  "map_of (rooms (run E0 [DefineRoomType ''chat'' H0, CreateRequest ''chat'' [],
                          RoomEmits ''id0'' ''lock''] (setup_matchmaker P0 [] ''p1'' loaded)))
     ''id0'' = Some R1 \<and>
   ''$id0'' \<in> subscriptions (presence
      (run E0 [DefineRoomType ''chat'' H0, CreateRequest ''chat'' [], RoomEmits ''id0'' ''lock'']
         (setup_matchmaker P0 [] ''p1'' loaded)))"
proof -
  let ?s = "run E0 [DefineRoomType ''chat'' H0, CreateRequest ''chat'' [], RoomEmits ''id0'' ''lock'']
              (setup_matchmaker P0 [] ''p1'' loaded)"
  have a: "map_of (rooms ?s) ''id0'' = Some R1"
    by (simp add: run_def defineRoomType_def cleanupStaleRooms_def room_emits_def lockRoom_def
          handler_emit_def clearRoomReferences_def del_def matches_def concrete_defs L1_def R1_def)
  show ?thesis
    using locked_room_stays_subscribed
            [of "''chat''" R1 S1 E0
                "[DefineRoomType ''chat'' H0, CreateRequest ''chat'' [], RoomEmits ''id0'' ''lock'']"
                P0 "[]" "''p1''"] a
    by (simp add: getRoomChannel_def)
qed

end
